theory Spec2Isabelle
  imports Main "HOL-Library.Word"
begin

unbundle bit_operations_syntax

section \<open>Distributed switch architecture, binding version 2 (net/dsa/dsa2.c)\<close>

text \<open>
  The file dsa2.c assembles switch trees out of switches that register one by one.
  The embedding below follows it function by function. Objects that the C code reaches
  through pointers (switch trees, switches, the list heads of the tree registry) live in
  an explicit store; the functions of other kernel files that dsa2.c calls (device tree
  access, chip drivers, slave interfaces) are the fields of two records, \<open>of_tree\<close> and
  \<open>collaborators\<close>, which the functions take as arguments.
\<close>

subsection \<open>Constants of the headers\<close>

text \<open>
  Modelled from the spec: the header net/dsa.h, which fixes the capacity of the slot
  array and of the routing table ("Fixed-capacity slot arrays (bounded by a maximum
  switch/port count)") and the "unreachable" routing entry, is not part of the file.
  The values are the ones of the kernel header that accompanies this dsa2.c. No general
  theorem below unfolds them.
\<close>

definition DSA_MAX_SWITCHES :: nat where
  "DSA_MAX_SWITCHES = 4"

definition DSA_MAX_PORTS :: nat where
  "DSA_MAX_PORTS = 12"

definition DSA_RTABLE_NONE :: int where
  "DSA_RTABLE_NONE = - 1"

text \<open>The errno values that dsa2.c returns negated.\<close>

definition ENOMEM :: int where "ENOMEM = 12"
definition EBUSY :: int where "EBUSY = 16"
definition ENODEV :: int where "ENODEV = 19"
definition EINVAL :: int where "EINVAL = 22"
definition ENODATA :: int where "ENODATA = 61"
definition EOVERFLOW :: int where "EOVERFLOW = 75"
definition EPROBE_DEFER :: int where "EPROBE_DEFER = 517"

subsection \<open>Data model\<close>

type_synonym device_node = nat
type_synonym net_device = nat
type_synonym device_id = nat
type_synonym mii_bus = nat
type_synonym ds_ptr = nat
type_synonym dst_ptr = nat
type_synonym u32 = "32 word"
type_synonym s8 = "8 word"

text \<open>
  The device tree as dsa2.c reads it. \<open>phandles n p\<close> lists the nodes that the
  successive calls \<open>of_parse_phandle(n, p, 0)\<close>, \<open>of_parse_phandle(n, p, 1)\<close>, ...
  return before the first NULL; \<open>u32_props n p\<close> is the cell array of a property, absent
  when the node has no such property; \<open>children n\<close> are the available children of a
  node with their node names.
\<close>

record of_tree =
  phandles :: "device_node \<Rightarrow> string \<Rightarrow> device_node list"
  u32_props :: "device_node \<Rightarrow> string \<Rightarrow> nat list option"
  string_props :: "device_node \<Rightarrow> string \<Rightarrow> string option"
  children :: "device_node \<Rightarrow> (string \<times> device_node) list"

text \<open>\<open>struct dsa_port\<close>: the fields that dsa2.c reads or writes.\<close>

record dsa_port =
  dn :: "device_node option"
  name :: "string option"
  netdev :: "net_device option"

text \<open>\<open>struct dsa_chip_data\<close> (platform data): port names and the master device.\<close>

record dsa_chip_data =
  port_names :: "nat \<Rightarrow> string option"
  cd_netdev :: "nat \<Rightarrow> device_id"

text \<open>
  \<open>struct dsa_switch\<close>. The array \<open>ports\<close> has \<open>num_ports\<close> entries
  (\<open>dsa_switch_alloc\<close>), so \<open>num_ports\<close> is the length of the list. The routing table
  \<open>s8 rtable[DSA_MAX_SWITCHES]\<close> is indexed by the destination switch: an entry is
  a signed byte, so a store into it keeps the low eight bits of the value and \<open>sint\<close>
  reads it back. The four port masks are 32-bit.
\<close>

record dsa_switch =
  dst :: "dst_ptr option"
  index :: nat
  cd :: "dsa_chip_data option"
  ds_master_netdev :: "net_device option"
  rtable :: "nat \<Rightarrow> s8"
  enabled_port_mask :: u32
  phys_mii_mask :: u32
  dsa_port_mask :: u32
  cpu_port_mask :: u32
  slave_mii_bus :: "mii_bus option"
  ports :: "dsa_port list"

abbreviation num_ports :: "dsa_switch \<Rightarrow> nat" where
  "num_ports d \<equiv> length (ports d)"

text \<open>
  \<open>struct list_head\<close>: a pointer to a list head points to the global
  \<open>dsa_switch_trees\<close> or to the field \<open>list\<close> of a tree, or it is no list head at all
  (NULL in zeroed memory, \<open>LIST_POISON1\<close> and \<open>LIST_POISON2\<close> after \<open>list_del\<close>).
\<close>

datatype list_node = HEAD | NODE dst_ptr | INVALID_NODE

record list_head =
  lh_next :: list_node
  lh_prev :: list_node

text \<open>
  \<open>enum dsa_tag_protocol\<close> and the handler set \<open>struct dsa_device_ops\<close> are
  opaque here; \<open>IS_ERR\<close> pointers are \<open>Inl\<close> of the (negative) error.
\<close>

type_synonym dsa_tag_protocol = nat
type_synonym dsa_device_ops = nat

text \<open>\<open>struct dsa_switch_tree\<close>.\<close>

record dsa_switch_tree =
  list :: list_head
  tree :: nat
  refcount :: int
  applied :: bool
  dst_master_netdev :: "net_device option"
  tag_ops :: "(int + dsa_device_ops) option"
  rcv :: "dsa_device_ops option"
  cpu_switch :: "ds_ptr option"
  cpu_port :: nat
  ds :: "nat \<Rightarrow> ds_ptr option"

text \<open>
  The store: the global list head \<open>dsa_switch_trees\<close>, the memory of the trees with
  the set of blocks that \<open>kzalloc\<close> has handed out and \<open>kfree\<close> has not taken back
  (\<open>brk\<close> is the next fresh address), the switches (owned by their drivers), and the
  field \<open>dsa_ptr\<close> of the network devices.
\<close>

record dsa_state =
  dsa_switch_trees :: list_head
  trees :: "dst_ptr \<Rightarrow> dsa_switch_tree"
  allocated :: "dst_ptr \<Rightarrow> bool"
  brk :: dst_ptr
  switches :: "ds_ptr \<Rightarrow> dsa_switch"
  dsa_ptr :: "net_device \<Rightarrow> dst_ptr option"

text \<open>
  \<open>struct device\<close>: the two fields that \<open>_dsa_register_switch\<close> reads.
\<close>

record device =
  platform_data :: "dsa_chip_data option"
  of_node :: "device_node option"

text \<open>
  The collaborators: what the functions of other files return when dsa2.c calls them.
  \<open>kzalloc_ok\<close> tells whether the allocation of a tree succeeds; \<open>ops_set_addr\<close> is
  absent when the driver has no \<open>set_addr\<close>, \<open>ops_phy_read\<close> tells whether it has a
  \<open>phy_read\<close>; \<open>slave_create\<close> is the error or the new interface of
  \<open>dsa_slave_create\<close>; an \<open>IS_ERR\<close> pointer of \<open>dsa_resolve_tag_protocol\<close> is
  \<open>Inl\<close> of the error. The collaborators are taken to leave the fields of the store
  alone, but for the effects written out in the functions below.
\<close>

record collaborators =
  kzalloc_ok :: bool
  of_find_net_device_by_node :: "device_node \<Rightarrow> net_device option"
  dsa_dev_to_net_device :: "device_id \<Rightarrow> net_device option"
  get_tag_protocol :: "ds_ptr \<Rightarrow> dsa_tag_protocol"
  dsa_resolve_tag_protocol :: "dsa_tag_protocol \<Rightarrow> int + dsa_device_ops"
  ops_setup :: "ds_ptr \<Rightarrow> int"
  dsa_switch_register_notifier :: "ds_ptr \<Rightarrow> int"
  ops_set_addr :: "ds_ptr \<Rightarrow> (net_device \<Rightarrow> int) option"
  ops_phy_read :: "ds_ptr \<Rightarrow> bool"
  devm_mdiobus_alloc :: "ds_ptr \<Rightarrow> mii_bus option"
  mdiobus_register :: "mii_bus \<Rightarrow> int"
  dsa_cpu_dsa_setup :: "ds_ptr \<Rightarrow> nat \<Rightarrow> int"
  slave_create :: "ds_ptr \<Rightarrow> nat \<Rightarrow> string \<Rightarrow> int + net_device"
  dsa_cpu_port_ethtool_setup :: "ds_ptr \<Rightarrow> int"

subsection \<open>Device tree access (linux/of.h)\<close>

text \<open>
  \<open>of_parse_phandle(np, name, index)\<close>: the node a phandle refers to; NULL for a
  NULL node and beyond the last resolvable entry.
\<close>

definition of_parse_phandle ::
  "of_tree \<Rightarrow> device_node option \<Rightarrow> string \<Rightarrow> nat \<Rightarrow> device_node option" where
  "of_parse_phandle dt np nm i =
     (case np of
        None \<Rightarrow> None
      | Some n \<Rightarrow> (if i < length (phandles dt n nm) then Some (phandles dt n nm ! i) else None))"

text \<open>
  \<open>of_property_read_u32_index(np, name, index, &out)\<close>: \<open>Inl\<close> of the error, or
  \<open>Inr\<close> of the value stored in \<open>*out\<close> when it returns 0. The kernel documents it as
  returning \<open>-EINVAL\<close> if the property does not exist, \<open>-ENODATA\<close> if it has no
  value and \<open>-EOVERFLOW\<close> if it is too short.
\<close>

definition of_property_read_u32_index ::
  "of_tree \<Rightarrow> device_node \<Rightarrow> string \<Rightarrow> nat \<Rightarrow> int + nat" where
  "of_property_read_u32_index dt np nm i =
     (case u32_props dt np nm of
        None \<Rightarrow> Inl (- EINVAL)
      | Some cells \<Rightarrow>
          (if cells = [] then Inl (- ENODATA)
           else if i < length cells then Inr (cells ! i)
           else Inl (- EOVERFLOW)))"

definition of_property_read_u32 ::
  "of_tree \<Rightarrow> device_node \<Rightarrow> string \<Rightarrow> int + nat" where
  "of_property_read_u32 dt np nm = of_property_read_u32_index dt np nm 0"

definition of_get_property :: "of_tree \<Rightarrow> device_node \<Rightarrow> string \<Rightarrow> string option" where
  "of_get_property dt np nm = string_props dt np nm"

definition of_get_child_by_name :: "of_tree \<Rightarrow> device_node \<Rightarrow> string \<Rightarrow> device_node option" where
  "of_get_child_by_name dt np nm = map_of (children dt np) nm"

subsection \<open>The store, lists and reference counts (linux/list.h, linux/kref.h, linux/slab.h)\<close>

definition switch_store :: "ds_ptr \<Rightarrow> (dsa_switch \<Rightarrow> dsa_switch) \<Rightarrow> dsa_state \<Rightarrow> dsa_state" where
  "switch_store p f s = s\<lparr>switches := (switches s)(p := f (switches s p))\<rparr>"

definition tree_store :: "dst_ptr \<Rightarrow> (dsa_switch_tree \<Rightarrow> dsa_switch_tree) \<Rightarrow> dsa_state \<Rightarrow> dsa_state" where
  "tree_store p f s = s\<lparr>trees := (trees s)(p := f (trees s p))\<rparr>"

definition get_next :: "dsa_state \<Rightarrow> list_node \<Rightarrow> list_node" where
  "get_next s n =
     (case n of HEAD \<Rightarrow> lh_next (dsa_switch_trees s)
      | NODE p \<Rightarrow> lh_next (list (trees s p))
      | INVALID_NODE \<Rightarrow> INVALID_NODE)"

definition get_prev :: "dsa_state \<Rightarrow> list_node \<Rightarrow> list_node" where
  "get_prev s n =
     (case n of HEAD \<Rightarrow> lh_prev (dsa_switch_trees s)
      | NODE p \<Rightarrow> lh_prev (list (trees s p))
      | INVALID_NODE \<Rightarrow> INVALID_NODE)"

definition set_next :: "list_node \<Rightarrow> list_node \<Rightarrow> dsa_state \<Rightarrow> dsa_state" where
  "set_next n v s =
     (case n of HEAD \<Rightarrow> s\<lparr>dsa_switch_trees := (dsa_switch_trees s)\<lparr>lh_next := v\<rparr>\<rparr>
      | NODE p \<Rightarrow> tree_store p (\<lambda>t. t\<lparr>list := (list t)\<lparr>lh_next := v\<rparr>\<rparr>) s
      | INVALID_NODE \<Rightarrow> s)"

definition set_prev :: "list_node \<Rightarrow> list_node \<Rightarrow> dsa_state \<Rightarrow> dsa_state" where
  "set_prev n v s =
     (case n of HEAD \<Rightarrow> s\<lparr>dsa_switch_trees := (dsa_switch_trees s)\<lparr>lh_prev := v\<rparr>\<rparr>
      | NODE p \<Rightarrow> tree_store p (\<lambda>t. t\<lparr>list := (list t)\<lparr>lh_prev := v\<rparr>\<rparr>) s
      | INVALID_NODE \<Rightarrow> s)"

text \<open>\<open>INIT_LIST_HEAD(list)\<close>: \<open>list->next = list; list->prev = list\<close>.\<close>

definition INIT_LIST_HEAD :: "list_node \<Rightarrow> dsa_state \<Rightarrow> dsa_state" where
  "INIT_LIST_HEAD l s = set_prev l l (set_next l l s)"

text \<open>
  \<open>__list_add(new, prev, next)\<close>:
  \<open>next->prev = new; new->next = next; new->prev = prev; prev->next = new\<close>.
\<close>

definition list_add_between :: "list_node \<Rightarrow> list_node \<Rightarrow> list_node \<Rightarrow> dsa_state \<Rightarrow> dsa_state" where
  "list_add_between new prv nxt s =
     set_next prv new (set_prev new prv (set_next new nxt (set_prev nxt new s)))"

text \<open>\<open>list_add_tail(new, head)\<close> is \<open>__list_add(new, head->prev, head)\<close>.\<close>

definition list_add_tail :: "list_node \<Rightarrow> list_node \<Rightarrow> dsa_state \<Rightarrow> dsa_state" where
  "list_add_tail new head s = list_add_between new (get_prev s head) head s"

text \<open>
  \<open>list_del(entry)\<close> is \<open>__list_del(entry->prev, entry->next)\<close>, that is
  \<open>next->prev = prev; prev->next = next\<close>, and then poisons the entry.
\<close>

definition list_del :: "list_node \<Rightarrow> dsa_state \<Rightarrow> dsa_state" where
  "list_del entry s =
     (let prv = get_prev s entry; nxt = get_next s entry;
          s1 = set_next prv nxt (set_prev nxt prv s)
      in set_prev entry INVALID_NODE (set_next entry INVALID_NODE s1))"

text \<open>
  \<open>kzalloc\<close> of a tree: a fresh block of zeroed memory. Whether the allocation
  succeeds is up to the allocator, a collaborator.
\<close>

definition zero_tree :: dsa_switch_tree where
  "zero_tree =
     \<lparr>list = \<lparr>lh_next = INVALID_NODE, lh_prev = INVALID_NODE\<rparr>, tree = 0, refcount = 0,
      applied = False, dst_master_netdev = None, tag_ops = None, rcv = None,
      cpu_switch = None, cpu_port = 0, ds = (\<lambda>_. None)\<rparr>"

definition kzalloc :: "dsa_state \<Rightarrow> dst_ptr \<times> dsa_state" where
  "kzalloc s =
     (brk s, s\<lparr>trees := (trees s)(brk s := zero_tree),
              allocated := (allocated s)(brk s := True),
              brk := Suc (brk s)\<rparr>)"

definition kfree :: "dst_ptr \<Rightarrow> dsa_state \<Rightarrow> dsa_state" where
  "kfree p s = s\<lparr>allocated := (allocated s)(p := False)\<rparr>"

definition kref_init :: "dst_ptr \<Rightarrow> dsa_state \<Rightarrow> dsa_state" where
  "kref_init p s = tree_store p (\<lambda>t. t\<lparr>refcount := 1\<rparr>) s"

definition kref_get :: "dst_ptr \<Rightarrow> dsa_state \<Rightarrow> dsa_state" where
  "kref_get p s = tree_store p (\<lambda>t. t\<lparr>refcount := refcount t + 1\<rparr>) s"

text \<open>\<open>kref_put(kref, release)\<close>: decrement, and call \<open>release\<close> when zero is reached.\<close>

definition kref_put :: "dst_ptr \<Rightarrow> (dst_ptr \<Rightarrow> dsa_state \<Rightarrow> dsa_state) \<Rightarrow> dsa_state \<Rightarrow> dsa_state" where
  "kref_put p release s =
     (let s1 = tree_store p (\<lambda>t. t\<lparr>refcount := refcount t - 1\<rparr>) s
      in if refcount (trees s1 p) = 0 then release p s1 else s1)"

subsection \<open>Tree registry\<close>

text \<open>
  \<open>list_for_each_entry(dst, &dsa_switch_trees, list)\<close> in \<open>dsa_get_dst\<close>: the walk
  from \<open>pos\<close> on. It ends at the list head or at the first tree with the identifier;
  on a ring that does not come back to the head, or through a pointer that is no list
  head, it does not return.
\<close>

partial_function (option) dsa_get_dst_walk ::
  "dsa_state \<Rightarrow> nat \<Rightarrow> list_node \<Rightarrow> dst_ptr option option" where
  "dsa_get_dst_walk s tr pos =
     (case pos of
        HEAD \<Rightarrow> Some None
      | NODE p \<Rightarrow>
          (if tree (trees s p) = tr then Some (Some p)
           else dsa_get_dst_walk s tr (lh_next (list (trees s p))))
      | INVALID_NODE \<Rightarrow> None)"

definition dsa_get_dst :: "dsa_state \<Rightarrow> nat \<Rightarrow> (dst_ptr option \<times> dsa_state) option" where
  "dsa_get_dst s tr =
     (case dsa_get_dst_walk s tr (lh_next (dsa_switch_trees s)) of
        None \<Rightarrow> None
      | Some None \<Rightarrow> Some (None, s)
      | Some (Some p) \<Rightarrow> Some (Some p, kref_get p s))"

definition dsa_free_dst :: "dst_ptr \<Rightarrow> dsa_state \<Rightarrow> dsa_state" where
  "dsa_free_dst p s = kfree p (list_del (NODE p) s)"

definition dsa_put_dst :: "dst_ptr \<Rightarrow> dsa_state \<Rightarrow> dsa_state" where
  "dsa_put_dst p s = kref_put p dsa_free_dst s"

text \<open>
  \<open>dsa_add_dst\<close>. The call is \<open>list_add_tail(&dsa_switch_trees, &dst->list)\<close>: the
  first argument, the entry that is inserted, is the global head, and the list it is
  inserted into is the one of the new tree.
\<close>

definition dsa_add_dst :: "collaborators \<Rightarrow> dsa_state \<Rightarrow> nat \<Rightarrow> dst_ptr option \<times> dsa_state" where
  "dsa_add_dst cb s tr =
     (if \<not> kzalloc_ok cb then (None, s)
      else
        (case kzalloc s of (p, s1) \<Rightarrow>
          let s2 = tree_store p (\<lambda>t. t\<lparr>tree := tr\<rparr>) s1;
              s3 = INIT_LIST_HEAD (NODE p) s2;
              s4 = list_add_tail HEAD (NODE p) s3;
              s5 = kref_init p s4
          in (Some p, s5)))"

definition dsa_dst_add_ds :: "dst_ptr \<Rightarrow> ds_ptr \<Rightarrow> nat \<Rightarrow> dsa_state \<Rightarrow> dsa_state" where
  "dsa_dst_add_ds p d i s =
     tree_store p (\<lambda>t. t\<lparr>ds := (ds t)(i := Some d)\<rparr>) (kref_get p s)"

definition dsa_dst_del_ds :: "dst_ptr \<Rightarrow> ds_ptr \<Rightarrow> nat \<Rightarrow> dsa_state \<Rightarrow> dsa_state" where
  "dsa_dst_del_ds p d i s =
     kref_put p dsa_free_dst (tree_store p (\<lambda>t. t\<lparr>ds := (ds t)(i := None)\<rparr>) s)"

subsection \<open>Port classifier\<close>

definition dsa_port_is_valid :: "dsa_port \<Rightarrow> bool" where
  "dsa_port_is_valid port = (dn port \<noteq> None \<or> name port \<noteq> None)"

definition dsa_port_is_dsa :: "of_tree \<Rightarrow> dsa_port \<Rightarrow> bool" where
  "dsa_port_is_dsa dt port =
     (if name port \<noteq> None \<and> the (name port) = ''dsa'' then True
      else of_parse_phandle dt (dn port) ''link'' 0 \<noteq> None)"

definition dsa_port_is_cpu :: "of_tree \<Rightarrow> dsa_port \<Rightarrow> bool" where
  "dsa_port_is_cpu dt port =
     (if name port \<noteq> None \<and> the (name port) = ''cpu'' then True
      else of_parse_phandle dt (dn port) ''ethernet'' 0 \<noteq> None)"

text \<open>
  The class of a port is not stored; \<open>dsa_ds_apply\<close> and \<open>dsa_ds_unapply\<close> derive
  it by this chain of tests, in this order.
\<close>

datatype port_class = Invalid | DsaLink | Cpu | User

definition classify :: "of_tree \<Rightarrow> dsa_port \<Rightarrow> port_class" where
  "classify dt port =
     (if \<not> dsa_port_is_valid port then Invalid
      else if dsa_port_is_dsa dt port then DsaLink
      else if dsa_port_is_cpu dt port then Cpu
      else User)"

subsection \<open>Topology resolver\<close>

definition BIT :: "nat \<Rightarrow> u32" where
  "BIT n = push_bit n 1"

fun dsa_ds_find_port_dn_loop :: "dsa_switch \<Rightarrow> device_node option \<Rightarrow> nat list \<Rightarrow> bool" where
  "dsa_ds_find_port_dn_loop d port [] = False"
| "dsa_ds_find_port_dn_loop d port (i # rest) =
     (if dn (ports d ! i) = port then True else dsa_ds_find_port_dn_loop d port rest)"

definition dsa_ds_find_port_dn :: "dsa_switch \<Rightarrow> device_node option \<Rightarrow> bool" where
  "dsa_ds_find_port_dn d port = dsa_ds_find_port_dn_loop d port [0 ..< num_ports d]"

fun dsa_dst_find_port_dn_loop ::
  "dsa_state \<Rightarrow> dst_ptr \<Rightarrow> device_node option \<Rightarrow> nat list \<Rightarrow> ds_ptr option" where
  "dsa_dst_find_port_dn_loop s t port [] = None"
| "dsa_dst_find_port_dn_loop s t port (i # rest) =
     (case ds (trees s t) i of
        None \<Rightarrow> dsa_dst_find_port_dn_loop s t port rest
      | Some d \<Rightarrow>
          (if dsa_ds_find_port_dn (switches s d) port then Some d
           else dsa_dst_find_port_dn_loop s t port rest))"

definition dsa_dst_find_port_dn :: "dsa_state \<Rightarrow> dst_ptr \<Rightarrow> device_node option \<Rightarrow> ds_ptr option" where
  "dsa_dst_find_port_dn s t port = dsa_dst_find_port_dn_loop s t port [0 ..< DSA_MAX_SWITCHES]"

text \<open>
  \<open>dsa_port_complete\<close>: the loop \<open>for (index = 0;; index++)\<close> over the "link"
  references of the port, from \<open>index\<close> on. The port is passed as the value of
  \<open>*port\<close>; the loop reads only \<open>port->dn\<close>, which it does not write. The
  assignment \<open>src_ds->rtable[dst_ds->index] = src_port\<close> converts the \<open>u32\<close> port
  number to the \<open>s8\<close> entry.
\<close>

function dsa_port_complete_loop ::
  "of_tree \<Rightarrow> dsa_state \<Rightarrow> dst_ptr \<Rightarrow> ds_ptr \<Rightarrow> dsa_port \<Rightarrow> nat \<Rightarrow> nat \<Rightarrow> int \<times> dsa_state" where
  "dsa_port_complete_loop dt s t src_ds port src_port i =
     (case of_parse_phandle dt (dn port) ''link'' i of
        None \<Rightarrow> (0, s)
      | Some link \<Rightarrow>
          (case dsa_dst_find_port_dn s t (Some link) of
             None \<Rightarrow> (1, s)
           | Some dst_ds \<Rightarrow>
               dsa_port_complete_loop dt
                 (switch_store src_ds
                    (\<lambda>d. d\<lparr>rtable := (rtable d)(index (switches s dst_ds) := word_of_nat src_port)\<rparr>) s)
                 t src_ds port src_port (Suc i)))"
  by pat_completeness auto
termination
  by (relation "measure (\<lambda>(dt, s, t, src_ds, port, src_port, i).
        length (phandles dt (the (dn port)) ''link'') - i)")
     (auto simp: of_parse_phandle_def split: option.splits if_splits)

declare dsa_port_complete_loop.simps [simp del]

definition dsa_port_complete ::
  "of_tree \<Rightarrow> dsa_state \<Rightarrow> dst_ptr \<Rightarrow> ds_ptr \<Rightarrow> dsa_port \<Rightarrow> nat \<Rightarrow> int \<times> dsa_state" where
  "dsa_port_complete dt s t src_ds port src_port =
     dsa_port_complete_loop dt s t src_ds port src_port 0"

fun dsa_ds_complete_loop ::
  "of_tree \<Rightarrow> dsa_state \<Rightarrow> dst_ptr \<Rightarrow> ds_ptr \<Rightarrow> nat list \<Rightarrow> int \<times> dsa_state" where
  "dsa_ds_complete_loop dt s t d [] = (0, s)"
| "dsa_ds_complete_loop dt s t d (i # rest) =
     (let port = ports (switches s d) ! i in
      if \<not> dsa_port_is_valid port then dsa_ds_complete_loop dt s t d rest
      else if \<not> dsa_port_is_dsa dt port then dsa_ds_complete_loop dt s t d rest
      else
        (case dsa_port_complete dt s t d port i of
           (err, s1) \<Rightarrow>
             if err \<noteq> 0 then (err, s1)
             else dsa_ds_complete_loop dt
                    (switch_store d (\<lambda>x. x\<lparr>dsa_port_mask := dsa_port_mask x OR BIT i\<rparr>) s1)
                    t d rest))"

definition dsa_ds_complete :: "of_tree \<Rightarrow> dsa_state \<Rightarrow> dst_ptr \<Rightarrow> ds_ptr \<Rightarrow> int \<times> dsa_state" where
  "dsa_ds_complete dt s t d = dsa_ds_complete_loop dt s t d [0 ..< num_ports (switches s d)]"

fun dsa_dst_complete_loop ::
  "of_tree \<Rightarrow> dsa_state \<Rightarrow> dst_ptr \<Rightarrow> nat list \<Rightarrow> int \<times> dsa_state" where
  "dsa_dst_complete_loop dt s t [] = (0, s)"
| "dsa_dst_complete_loop dt s t (i # rest) =
     (case ds (trees s t) i of
        None \<Rightarrow> dsa_dst_complete_loop dt s t rest
      | Some d \<Rightarrow>
          (case dsa_ds_complete dt s t d of
             (err, s1) \<Rightarrow>
               if err \<noteq> 0 then (err, s1) else dsa_dst_complete_loop dt s1 t rest))"

definition dsa_dst_complete :: "of_tree \<Rightarrow> dsa_state \<Rightarrow> dst_ptr \<Rightarrow> int \<times> dsa_state" where
  "dsa_dst_complete dt s t = dsa_dst_complete_loop dt s t [0 ..< DSA_MAX_SWITCHES]"

subsection \<open>Activator\<close>

text \<open>
  Functions that dereference a pointer that may be NULL return an option: \<open>None\<close>
  is the kernel fault, a call that does not return.
\<close>

definition dsa_dsa_port_apply ::
  "collaborators \<Rightarrow> dsa_state \<Rightarrow> dsa_port \<Rightarrow> nat \<Rightarrow> ds_ptr \<Rightarrow> int \<times> dsa_state" where
  "dsa_dsa_port_apply cb s port i d =
     (let err = dsa_cpu_dsa_setup cb d i in
      if err \<noteq> 0 then (err, s) else (0, s))"

definition dsa_dsa_port_unapply :: "dsa_state \<Rightarrow> dsa_port \<Rightarrow> nat \<Rightarrow> ds_ptr \<Rightarrow> dsa_state" where
  "dsa_dsa_port_unapply s port i d = s"

definition dsa_cpu_port_apply ::
  "collaborators \<Rightarrow> dsa_state \<Rightarrow> dsa_port \<Rightarrow> nat \<Rightarrow> ds_ptr \<Rightarrow> int \<times> dsa_state" where
  "dsa_cpu_port_apply cb s port i d =
     (let err = dsa_cpu_dsa_setup cb d i in
      if err \<noteq> 0 then (err, s)
      else (0, switch_store d (\<lambda>x. x\<lparr>cpu_port_mask := cpu_port_mask x OR BIT i\<rparr>) s))"

definition dsa_cpu_port_unapply :: "dsa_state \<Rightarrow> dsa_port \<Rightarrow> nat \<Rightarrow> ds_ptr \<Rightarrow> dsa_state" where
  "dsa_cpu_port_unapply s port i d =
     switch_store d (\<lambda>x. x\<lparr>cpu_port_mask := cpu_port_mask x AND NOT (BIT i)\<rparr>) s"

text \<open>
  Modelled from the spec: \<open>dsa_slave_create\<close> is a function of net/dsa/slave.c. On
  success the port holds the new interface ("once materialized, an owned handle to a
  user-facing network interface"); on failure the store is as before.
\<close>

definition dsa_slave_create ::
  "collaborators \<Rightarrow> dsa_state \<Rightarrow> ds_ptr \<Rightarrow> nat \<Rightarrow> string \<Rightarrow> int \<times> dsa_state" where
  "dsa_slave_create cb s d i nm =
     (case slave_create cb d i nm of
        Inl err \<Rightarrow> (err, s)
      | Inr dev \<Rightarrow>
          (0, switch_store d (\<lambda>x. x\<lparr>ports := (ports x)[i := (ports x ! i)\<lparr>netdev := Some dev\<rparr>]\<rparr>) s))"

definition dsa_user_port_apply ::
  "collaborators \<Rightarrow> of_tree \<Rightarrow> dsa_state \<Rightarrow> dsa_port \<Rightarrow> nat \<Rightarrow> ds_ptr \<Rightarrow> int \<times> dsa_state" where
  "dsa_user_port_apply cb dt s port i d =
     (let nm = name port;
          nm = (case dn port of Some n \<Rightarrow> of_get_property dt n ''label'' | None \<Rightarrow> nm);
          nm = (case nm of None \<Rightarrow> ''eth%d'' | Some l \<Rightarrow> l)
      in case dsa_slave_create cb s d i nm of
           (err, s1) \<Rightarrow>
             if err \<noteq> 0
             then (err, switch_store d
                          (\<lambda>x. x\<lparr>ports := (ports x)[i := (ports x ! i)\<lparr>netdev := None\<rparr>]\<rparr>) s1)
             else (0, s1))"

definition dsa_user_port_unapply :: "dsa_state \<Rightarrow> dsa_port \<Rightarrow> nat \<Rightarrow> ds_ptr \<Rightarrow> dsa_state" where
  "dsa_user_port_unapply s port i d =
     (if netdev (ports (switches s d) ! i) \<noteq> None
      then switch_store d
             (\<lambda>x. x\<lparr>ports := (ports x)[i := (ports x ! i)\<lparr>netdev := None\<rparr>],
                    enabled_port_mask := enabled_port_mask x AND NOT (push_bit i 1)\<rparr>) s
      else s)"

text \<open>The loop over the ports in \<open>dsa_ds_apply\<close>.\<close>

fun dsa_ds_apply_loop ::
  "collaborators \<Rightarrow> of_tree \<Rightarrow> dsa_state \<Rightarrow> ds_ptr \<Rightarrow> nat list \<Rightarrow> int \<times> dsa_state" where
  "dsa_ds_apply_loop cb dt s d [] = (0, s)"
| "dsa_ds_apply_loop cb dt s d (i # rest) =
     (let port = ports (switches s d) ! i in
      if \<not> dsa_port_is_valid port then dsa_ds_apply_loop cb dt s d rest
      else if dsa_port_is_dsa dt port then
        (case dsa_dsa_port_apply cb s port i d of
           (err, s1) \<Rightarrow> if err \<noteq> 0 then (err, s1) else dsa_ds_apply_loop cb dt s1 d rest)
      else if dsa_port_is_cpu dt port then
        (case dsa_cpu_port_apply cb s port i d of
           (err, s1) \<Rightarrow> if err \<noteq> 0 then (err, s1) else dsa_ds_apply_loop cb dt s1 d rest)
      else
        (case dsa_user_port_apply cb dt s port i d of
           (err, s1) \<Rightarrow> dsa_ds_apply_loop cb dt s1 d rest))"

definition dsa_ds_apply ::
  "collaborators \<Rightarrow> of_tree \<Rightarrow> dsa_state \<Rightarrow> dst_ptr \<Rightarrow> ds_ptr \<Rightarrow> (int \<times> dsa_state) option" where
  "dsa_ds_apply cb dt s t d =
     (let s1 = switch_store d (\<lambda>x. x\<lparr>phys_mii_mask := enabled_port_mask x\<rparr>) s;
          err = ops_setup cb d
      in if err < 0 then Some (err, s1)
      else
        let err = dsa_switch_register_notifier cb d
        in if err \<noteq> 0 then Some (err, s1)
        else
          (case (case ops_set_addr cb d of
                   None \<Rightarrow> Some 0
                 | Some set_addr \<Rightarrow> map_option set_addr (dst_master_netdev (trees s1 t))) of
             None \<Rightarrow> None
           | Some err \<Rightarrow>
               if err < 0 then Some (err, s1)
               else if slave_mii_bus (switches s1 d) = None \<and> ops_phy_read cb d then
                 (case devm_mdiobus_alloc cb d of
                    None \<Rightarrow> Some (- ENOMEM, s1)
                  | Some bus \<Rightarrow>
                      let s2 = switch_store d (\<lambda>x. x\<lparr>slave_mii_bus := Some bus\<rparr>) s1;
                          err = mdiobus_register cb bus
                      in if err < 0 then Some (err, s2)
                         else Some (dsa_ds_apply_loop cb dt s2 d [0 ..< num_ports (switches s2 d)]))
               else Some (dsa_ds_apply_loop cb dt s1 d [0 ..< num_ports (switches s1 d)])))"

fun dsa_ds_unapply_loop :: "of_tree \<Rightarrow> dsa_state \<Rightarrow> ds_ptr \<Rightarrow> nat list \<Rightarrow> dsa_state" where
  "dsa_ds_unapply_loop dt s d [] = s"
| "dsa_ds_unapply_loop dt s d (i # rest) =
     (let port = ports (switches s d) ! i in
      if \<not> dsa_port_is_valid port then dsa_ds_unapply_loop dt s d rest
      else if dsa_port_is_dsa dt port then
        dsa_ds_unapply_loop dt (dsa_dsa_port_unapply s port i d) d rest
      else if dsa_port_is_cpu dt port then
        dsa_ds_unapply_loop dt (dsa_cpu_port_unapply s port i d) d rest
      else dsa_ds_unapply_loop dt (dsa_user_port_unapply s port i d) d rest)"

definition dsa_ds_unapply :: "of_tree \<Rightarrow> dsa_state \<Rightarrow> dst_ptr \<Rightarrow> ds_ptr \<Rightarrow> dsa_state" where
  "dsa_ds_unapply dt s t d = dsa_ds_unapply_loop dt s d [0 ..< num_ports (switches s d)]"

fun dsa_dst_apply_loop ::
  "collaborators \<Rightarrow> of_tree \<Rightarrow> dsa_state \<Rightarrow> dst_ptr \<Rightarrow> nat list \<Rightarrow> (int \<times> dsa_state) option" where
  "dsa_dst_apply_loop cb dt s t [] = Some (0, s)"
| "dsa_dst_apply_loop cb dt s t (i # rest) =
     (case ds (trees s t) i of
        None \<Rightarrow> dsa_dst_apply_loop cb dt s t rest
      | Some d \<Rightarrow>
          (case dsa_ds_apply cb dt s t d of
             None \<Rightarrow> None
           | Some (err, s1) \<Rightarrow>
               if err \<noteq> 0 then Some (err, s1) else dsa_dst_apply_loop cb dt s1 t rest))"

definition dsa_dst_apply ::
  "collaborators \<Rightarrow> of_tree \<Rightarrow> dsa_state \<Rightarrow> dst_ptr \<Rightarrow> (int \<times> dsa_state) option" where
  "dsa_dst_apply cb dt s t =
     (case dsa_dst_apply_loop cb dt s t [0 ..< DSA_MAX_SWITCHES] of
        None \<Rightarrow> None
      | Some (err, s1) \<Rightarrow>
          if err \<noteq> 0 then Some (err, s1)
          else
            let err = (case cpu_switch (trees s1 t) of
                         None \<Rightarrow> 0
                       | Some c \<Rightarrow> dsa_cpu_port_ethtool_setup cb c)
            in if err \<noteq> 0 then Some (err, s1)
               else
                 (case dst_master_netdev (trees s1 t) of
                    None \<Rightarrow> None
                  | Some m \<Rightarrow>
                      Some (0, tree_store t (\<lambda>x. x\<lparr>applied := True\<rparr>)
                                 (s1\<lparr>dsa_ptr := (dsa_ptr s1)(m := Some t)\<rparr>))))"

fun dsa_dst_unapply_loop :: "of_tree \<Rightarrow> dsa_state \<Rightarrow> dst_ptr \<Rightarrow> nat list \<Rightarrow> dsa_state" where
  "dsa_dst_unapply_loop dt s t [] = s"
| "dsa_dst_unapply_loop dt s t (i # rest) =
     (case ds (trees s t) i of
        None \<Rightarrow> dsa_dst_unapply_loop dt s t rest
      | Some d \<Rightarrow> dsa_dst_unapply_loop dt (dsa_ds_unapply dt s t d) t rest)"

definition dsa_dst_unapply :: "of_tree \<Rightarrow> dsa_state \<Rightarrow> dst_ptr \<Rightarrow> dsa_state option" where
  "dsa_dst_unapply dt s t =
     (if \<not> applied (trees s t) then Some s
      else
        (case dst_master_netdev (trees s t) of
           None \<Rightarrow> None
         | Some m \<Rightarrow>
             let s1 = s\<lparr>dsa_ptr := (dsa_ptr s)(m := None)\<rparr>;
                 s2 = dsa_dst_unapply_loop dt s1 t [0 ..< DSA_MAX_SWITCHES]
             in Some (tree_store t (\<lambda>x. x\<lparr>applied := False\<rparr>) s2)))"

subsection \<open>Protocol negotiator\<close>

definition dsa_cpu_parse ::
  "collaborators \<Rightarrow> of_tree \<Rightarrow> dsa_state \<Rightarrow> dsa_port \<Rightarrow> nat \<Rightarrow> dst_ptr \<Rightarrow> ds_ptr \<Rightarrow>
     (int \<times> dsa_state) option" where
  "dsa_cpu_parse cb dt s port i t d =
     (case (case dn port of
              Some n \<Rightarrow>
                (case of_parse_phandle dt (dn port) ''ethernet'' 0 of
                   None \<Rightarrow> Some (Inl (- EINVAL))
                 | Some ethernet \<Rightarrow> Some (Inr (of_find_net_device_by_node cb ethernet)))
            | None \<Rightarrow>
                (case cd (switches s d) of
                   None \<Rightarrow> None
                 | Some c \<Rightarrow> Some (Inr (dsa_dev_to_net_device cb (cd_netdev c i))))) of
        None \<Rightarrow> None
      | Some (Inl err) \<Rightarrow> Some (err, s)
      | Some (Inr None) \<Rightarrow> Some (- EPROBE_DEFER, s)
      | Some (Inr (Some ethernet_dev)) \<Rightarrow>
          let s1 = (if ds_master_netdev (switches s d) = None
                    then switch_store d (\<lambda>x. x\<lparr>ds_master_netdev := Some ethernet_dev\<rparr>) s
                    else s);
              s2 = (if dst_master_netdev (trees s1 t) = None
                    then tree_store t (\<lambda>x. x\<lparr>dst_master_netdev := Some ethernet_dev\<rparr>) s1
                    else s1);
              s3 = (if cpu_switch (trees s2 t) = None
                    then tree_store t (\<lambda>x. x\<lparr>cpu_switch := Some d, cpu_port := i\<rparr>) s2
                    else s2);
              tag_protocol = get_tag_protocol cb d;
              s4 = tree_store t
                     (\<lambda>x. x\<lparr>tag_ops := Some (dsa_resolve_tag_protocol cb tag_protocol)\<rparr>) s3
          in (case dsa_resolve_tag_protocol cb tag_protocol of
                Inl err \<Rightarrow> Some (err, s4)
              | Inr handlers \<Rightarrow> Some (0, tree_store t (\<lambda>x. x\<lparr>rcv := Some handlers\<rparr>) s4)))"

fun dsa_ds_parse_loop ::
  "collaborators \<Rightarrow> of_tree \<Rightarrow> dsa_state \<Rightarrow> dst_ptr \<Rightarrow> ds_ptr \<Rightarrow> nat list \<Rightarrow>
     (int \<times> dsa_state) option" where
  "dsa_ds_parse_loop cb dt s t d [] = Some (0, s)"
| "dsa_ds_parse_loop cb dt s t d (i # rest) =
     (let port = ports (switches s d) ! i in
      if \<not> dsa_port_is_valid port then dsa_ds_parse_loop cb dt s t d rest
      else if dsa_port_is_cpu dt port then
        (case dsa_cpu_parse cb dt s port i t d of
           None \<Rightarrow> None
         | Some (err, s1) \<Rightarrow>
             if err \<noteq> 0 then Some (err, s1) else dsa_ds_parse_loop cb dt s1 t d rest)
      else dsa_ds_parse_loop cb dt s t d rest)"

definition dsa_ds_parse ::
  "collaborators \<Rightarrow> of_tree \<Rightarrow> dsa_state \<Rightarrow> dst_ptr \<Rightarrow> ds_ptr \<Rightarrow> (int \<times> dsa_state) option" where
  "dsa_ds_parse cb dt s t d = dsa_ds_parse_loop cb dt s t d [0 ..< num_ports (switches s d)]"

fun dsa_dst_parse_loop ::
  "collaborators \<Rightarrow> of_tree \<Rightarrow> dsa_state \<Rightarrow> dst_ptr \<Rightarrow> nat list \<Rightarrow> (int \<times> dsa_state) option" where
  "dsa_dst_parse_loop cb dt s t [] = Some (0, s)"
| "dsa_dst_parse_loop cb dt s t (i # rest) =
     (case ds (trees s t) i of
        None \<Rightarrow> dsa_dst_parse_loop cb dt s t rest
      | Some d \<Rightarrow>
          (case dsa_ds_parse cb dt s t d of
             None \<Rightarrow> None
           | Some (err, s1) \<Rightarrow>
               if err \<noteq> 0 then Some (err, s1) else dsa_dst_parse_loop cb dt s1 t rest))"

definition dsa_dst_parse ::
  "collaborators \<Rightarrow> of_tree \<Rightarrow> dsa_state \<Rightarrow> dst_ptr \<Rightarrow> (int \<times> dsa_state) option" where
  "dsa_dst_parse cb dt s t =
     (case dsa_dst_parse_loop cb dt s t [0 ..< DSA_MAX_SWITCHES] of
        None \<Rightarrow> None
      | Some (err, s1) \<Rightarrow>
          if err \<noteq> 0 then Some (err, s1)
          else if dst_master_netdev (trees s1 t) = None then Some (- EINVAL, s1)
          else Some (0, s1))"

subsection \<open>Registration orchestrator\<close>

text \<open>
  \<open>for_each_available_child_of_node(ports, port)\<close> in \<open>dsa_parse_ports_dn\<close>: the loop
  over the children that are left.
\<close>

fun dsa_parse_ports_dn_loop ::
  "of_tree \<Rightarrow> dsa_state \<Rightarrow> ds_ptr \<Rightarrow> device_node list \<Rightarrow> int \<times> dsa_state" where
  "dsa_parse_ports_dn_loop dt s d [] = (0, s)"
| "dsa_parse_ports_dn_loop dt s d (port # rest) =
     (case of_property_read_u32 dt port ''reg'' of
        Inl err \<Rightarrow> (err, s)
      | Inr reg \<Rightarrow>
          if reg \<ge> num_ports (switches s d) then (- EINVAL, s)
          else
            let s1 = switch_store d
                       (\<lambda>x. x\<lparr>ports := (ports x)[reg := (ports x ! reg)\<lparr>dn := Some port\<rparr>]\<rparr>) s;
                s2 = (if \<not> dsa_port_is_cpu dt (ports (switches s1 d) ! reg)
                      then switch_store d
                             (\<lambda>x. x\<lparr>enabled_port_mask := enabled_port_mask x OR push_bit reg 1\<rparr>) s1
                      else s1)
            in dsa_parse_ports_dn_loop dt s2 d rest)"

definition dsa_parse_ports_dn :: "of_tree \<Rightarrow> dsa_state \<Rightarrow> device_node \<Rightarrow> ds_ptr \<Rightarrow> int \<times> dsa_state" where
  "dsa_parse_ports_dn dt s ports_node d =
     dsa_parse_ports_dn_loop dt s d (map snd (children dt ports_node))"

text \<open>
  The loop of \<open>dsa_parse_ports\<close> from the indices that are left, with the flag
  \<open>valid_name_found\<close>. A name for a port beyond \<open>num_ports\<close> is a store outside the
  array \<open>ds->ports\<close>: the model stops there.
\<close>

fun dsa_parse_ports_loop ::
  "of_tree \<Rightarrow> dsa_chip_data \<Rightarrow> dsa_state \<Rightarrow> ds_ptr \<Rightarrow> bool \<Rightarrow> nat list \<Rightarrow> (bool \<times> dsa_state) option" where
  "dsa_parse_ports_loop dt c s d valid_name_found [] = Some (valid_name_found, s)"
| "dsa_parse_ports_loop dt c s d valid_name_found (i # rest) =
     (case port_names c i of
        None \<Rightarrow> dsa_parse_ports_loop dt c s d valid_name_found rest
      | Some nm \<Rightarrow>
          if i \<ge> num_ports (switches s d) then None
          else
            let s1 = switch_store d
                       (\<lambda>x. x\<lparr>ports := (ports x)[i := (ports x ! i)\<lparr>name := Some nm\<rparr>]\<rparr>) s;
                s2 = (if \<not> dsa_port_is_cpu dt (ports (switches s1 d) ! i)
                      then switch_store d
                             (\<lambda>x. x\<lparr>enabled_port_mask := enabled_port_mask x OR push_bit i 1\<rparr>) s1
                      else s1)
            in dsa_parse_ports_loop dt c s2 d True rest)"

definition dsa_parse_ports ::
  "of_tree \<Rightarrow> dsa_chip_data \<Rightarrow> dsa_state \<Rightarrow> ds_ptr \<Rightarrow> (int \<times> dsa_state) option" where
  "dsa_parse_ports dt c s d =
     (case dsa_parse_ports_loop dt c s d False [0 ..< DSA_MAX_PORTS] of
        None \<Rightarrow> None
      | Some (valid_name_found, s1) \<Rightarrow>
          if \<not> valid_name_found then Some (- EINVAL, s1) else Some (0, s1))"

text \<open>
  \<open>dsa_parse_member_dn(np, &tree, &index)\<close>: the error, \<open>*tree\<close> and \<open>*index\<close>.
\<close>

definition dsa_parse_member_dn :: "of_tree \<Rightarrow> device_node \<Rightarrow> int \<times> nat \<times> nat" where
  "dsa_parse_member_dn dt np =
     (case of_property_read_u32_index dt np ''dsa,member'' 0 of
        Inl err \<Rightarrow> (if err = - EINVAL then (0, 0, 0) else (err, 0, 0))
      | Inr tr \<Rightarrow>
          (case of_property_read_u32_index dt np ''dsa,member'' 1 of
             Inl err \<Rightarrow> (err, tr, 0)
           | Inr idx \<Rightarrow>
               if idx \<ge> DSA_MAX_SWITCHES then (- EINVAL, tr, idx) else (0, tr, idx)))"

definition dsa_parse_member :: "dsa_chip_data option \<Rightarrow> int \<times> nat \<times> nat" where
  "dsa_parse_member pd = (if pd = None then (- ENODEV, 0, 0) else (0, 0, 0))"

definition dsa_get_ports :: "of_tree \<Rightarrow> device_node \<Rightarrow> int + device_node" where
  "dsa_get_ports dt np =
     (case of_get_child_by_name dt np ''ports'' of
        None \<Rightarrow> Inl (- EINVAL)
      | Some ports_node \<Rightarrow> Inr ports_node)"

text \<open>
  \<open>_dsa_register_switch\<close>, in three parts. The first is the head of the function, up
  to the lookup of the tree: the switch's member pair and its ports are parsed from the
  device tree when the device has a node, from the platform data otherwise. The result
  is the error, \<open>tree\<close>, \<open>index\<close> and the store.
\<close>

definition register_parse ::
  "of_tree \<Rightarrow> dsa_state \<Rightarrow> ds_ptr \<Rightarrow> device \<Rightarrow> (int \<times> nat \<times> nat \<times> dsa_state) option" where
  "register_parse dt s d dev =
     (case of_node dev of
        Some np \<Rightarrow>
          (case dsa_parse_member_dn dt np of
             (err, tr, idx) \<Rightarrow>
               if err \<noteq> 0 then Some (err, tr, idx, s)
               else
                 (case dsa_get_ports dt np of
                    Inl e \<Rightarrow> Some (e, tr, idx, s)
                  | Inr ports_node \<Rightarrow>
                      (case dsa_parse_ports_dn dt s ports_node d of
                         (err, s1) \<Rightarrow> Some (err, tr, idx, s1))))
      | None \<Rightarrow>
          (case dsa_parse_member (platform_data dev) of
             (err, tr, idx) \<Rightarrow>
               if err \<noteq> 0 then Some (err, tr, idx, s)
               else
                 (case platform_data dev of
                    None \<Rightarrow> None
                  | Some pdata \<Rightarrow>
                      (case dsa_parse_ports dt pdata s d of
                         None \<Rightarrow> None
                       | Some (err, s1) \<Rightarrow> Some (err, tr, idx, s1)))))"

text \<open>
  The claim of a free slot: \<open>ds->dst = dst; ds->index = index; ds->cd = pdata\<close>, the
  loop that initialises the routing table, and \<open>dsa_dst_add_ds\<close>.
\<close>

definition register_claim :: "ds_ptr \<Rightarrow> device \<Rightarrow> dst_ptr \<Rightarrow> nat \<Rightarrow> dsa_state \<Rightarrow> dsa_state" where
  "register_claim d dev t idx s =
     (let s1 = switch_store d (\<lambda>x. x\<lparr>dst := Some t, index := idx, cd := platform_data dev\<rparr>) s;
          s2 = fold (\<lambda>i. switch_store d (\<lambda>x. x\<lparr>rtable := (rtable x)(i := word_of_int DSA_RTABLE_NONE)\<rparr>))
                 [0 ..< DSA_MAX_SWITCHES] s1
      in dsa_dst_add_ds t d idx s2)"

text \<open>
  The third part: from the test of the slot to the end, on the tree \<open>t\<close> that the
  lookup or the allocation has returned.
\<close>

definition register_member ::
  "collaborators \<Rightarrow> of_tree \<Rightarrow> dsa_state \<Rightarrow> ds_ptr \<Rightarrow> device \<Rightarrow> dst_ptr \<Rightarrow> nat \<Rightarrow>
     (int \<times> dsa_state) option" where
  "register_member cb dt s d dev t idx =
     (if ds (trees s t) idx \<noteq> None then Some (- EBUSY, dsa_put_dst t s)
      else
        case dsa_dst_complete dt (register_claim d dev t idx s) t of
             (err, s4) \<Rightarrow>
               if err < 0 then
                 Some (err, dsa_put_dst t (dsa_dst_del_ds t d (index (switches s4 d)) s4))
               else if err = 1 then Some (0, dsa_put_dst t s4)
               else if applied (trees s4 t) then Some (- EINVAL, s4)
               else
                 (case dsa_dst_parse cb dt s4 t of
                    None \<Rightarrow> None
                  | Some (err, s5) \<Rightarrow>
                      if err \<noteq> 0 then
                        (if err = - EPROBE_DEFER
                         then Some (err, dsa_dst_del_ds t d (index (switches s5 d)) s5)
                         else Some (err, dsa_put_dst t (dsa_dst_del_ds t d (index (switches s5 d)) s5)))
                      else
                        (case dsa_dst_apply cb dt s5 t of
                           None \<Rightarrow> None
                         | Some (err, s6) \<Rightarrow>
                             if err \<noteq> 0 then
                               (case dsa_dst_unapply dt s6 t of
                                  None \<Rightarrow> None
                                | Some s7 \<Rightarrow>
                                    Some (err, dsa_put_dst t
                                                 (dsa_dst_del_ds t d (index (switches s7 d)) s7)))
                             else Some (0, dsa_put_dst t s6))))"

text \<open>
  \<open>_dsa_register_switch(ds, dev)\<close>, called with \<open>dsa2_mutex\<close> held.
\<close>

definition locked_dsa_register_switch ::
  "collaborators \<Rightarrow> of_tree \<Rightarrow> dsa_state \<Rightarrow> ds_ptr \<Rightarrow> device \<Rightarrow> (int \<times> dsa_state) option" where
  "locked_dsa_register_switch cb dt s d dev =
     (case register_parse dt s d dev of
        None \<Rightarrow> None
      | Some (err, tr, idx, s1) \<Rightarrow>
          if err \<noteq> 0 then Some (err, s1)
          else
            (case dsa_get_dst s1 tr of
               None \<Rightarrow> None
             | Some (Some t, s2) \<Rightarrow> register_member cb dt s2 d dev t idx
             | Some (None, s2) \<Rightarrow>
                 (case dsa_add_dst cb s2 tr of
                    (None, s3) \<Rightarrow> Some (- ENOMEM, s3)
                  | (Some t, s3) \<Rightarrow> register_member cb dt s3 d dev t idx)))"

text \<open>
  \<open>dsa_register_switch\<close> and \<open>dsa_unregister_switch\<close> take the mutex around the
  locked functions; calls do not interleave, so the mutex leaves no trace in the store.
\<close>

definition dsa_register_switch ::
  "collaborators \<Rightarrow> of_tree \<Rightarrow> dsa_state \<Rightarrow> ds_ptr \<Rightarrow> device \<Rightarrow> (int \<times> dsa_state) option" where
  "dsa_register_switch cb dt s d dev = locked_dsa_register_switch cb dt s d dev"

definition locked_dsa_unregister_switch :: "of_tree \<Rightarrow> dsa_state \<Rightarrow> ds_ptr \<Rightarrow> dsa_state option" where
  "locked_dsa_unregister_switch dt s d =
     (case dst (switches s d) of
        None \<Rightarrow> None
      | Some t \<Rightarrow>
          (case dsa_dst_unapply dt s t of
             None \<Rightarrow> None
           | Some s1 \<Rightarrow> Some (dsa_dst_del_ds t d (index (switches s1 d)) s1)))"

definition dsa_unregister_switch :: "of_tree \<Rightarrow> dsa_state \<Rightarrow> ds_ptr \<Rightarrow> dsa_state option" where
  "dsa_unregister_switch dt s d = locked_dsa_unregister_switch dt s d"

text \<open>
  \<open>dsa_switch_alloc(dev, n)\<close>: a zeroed switch with \<open>n\<close> zeroed ports (the fields
  \<open>index\<close> and \<open>ds\<close> of a port, which it sets, are not read by dsa2.c).
\<close>

definition dsa_switch_alloc :: "nat \<Rightarrow> dsa_switch" where
  "dsa_switch_alloc n =
     \<lparr>dst = None, index = 0, cd = None, ds_master_netdev = None, rtable = (\<lambda>_. 0),
      enabled_port_mask = 0, phys_mii_mask = 0, dsa_port_mask = 0, cpu_port_mask = 0,
      slave_mii_bus = None,
      ports = replicate n \<lparr>dn = None, name = None, netdev = None\<rparr>\<rparr>"

text \<open>The store before any registration: an empty registry.\<close>

definition dsa_boot :: "(ds_ptr \<Rightarrow> dsa_switch) \<Rightarrow> dsa_state" where
  "dsa_boot sw =
     \<lparr>dsa_switch_trees = \<lparr>lh_next = HEAD, lh_prev = HEAD\<rparr>, trees = (\<lambda>_. zero_tree),
      allocated = (\<lambda>_. False), brk = 0, switches = sw, dsa_ptr = (\<lambda>_. None)\<rparr>"

section \<open>Vocabulary of the properties\<close>

subsection \<open>Resolved topologies\<close>

text \<open>
  The link references of a port; a reference resolves when some occupied slot of the
  tree holds a switch with a port whose node is the reference.
\<close>

definition port_links :: "of_tree \<Rightarrow> dsa_port \<Rightarrow> device_node list" where
  "port_links dt port = (case dn port of None \<Rightarrow> [] | Some n \<Rightarrow> phandles dt n ''link'')"

definition member_port :: "dsa_state \<Rightarrow> dst_ptr \<Rightarrow> device_node \<Rightarrow> bool" where
  "member_port s t link =
     list_ex (\<lambda>j. case ds (trees s t) j of None \<Rightarrow> False
        | Some e \<Rightarrow> list_ex (\<lambda>q. dn (ports (switches s e) ! q) = Some link) [0 ..< num_ports (switches s e)])
       [0 ..< DSA_MAX_SWITCHES]"

definition port_resolves :: "of_tree \<Rightarrow> dsa_state \<Rightarrow> dst_ptr \<Rightarrow> dsa_port \<Rightarrow> bool" where
  "port_resolves dt s t port = list_all (member_port s t) (port_links dt port)"

definition switch_resolves :: "of_tree \<Rightarrow> dsa_state \<Rightarrow> dst_ptr \<Rightarrow> ds_ptr \<Rightarrow> bool" where
  "switch_resolves dt s t d =
     list_all (\<lambda>p. classify dt (ports (switches s d) ! p) = DsaLink \<longrightarrow>
                  port_resolves dt s t (ports (switches s d) ! p))
       [0 ..< num_ports (switches s d)]"

definition all_links_resolve :: "of_tree \<Rightarrow> dsa_state \<Rightarrow> dst_ptr \<Rightarrow> bool" where
  "all_links_resolve dt s t =
     list_all (\<lambda>i. case ds (trees s t) i of None \<Rightarrow> True | Some d \<Rightarrow> switch_resolves dt s t d)
       [0 ..< DSA_MAX_SWITCHES]"

definition same_topology :: "dsa_state \<Rightarrow> dsa_state \<Rightarrow> bool" where
  "same_topology s s' =
     (trees s' = trees s \<and>
      (\<forall>p. ports (switches s' p) = ports (switches s p) \<and> index (switches s' p) = index (switches s p)))"

subsection \<open>Registration\<close>

text \<open>
  A device that is described by a device-tree node, and the store that a call leaves
  (the store before the call when it does not return).
\<close>

definition of_device :: "device_node \<Rightarrow> device" where
  "of_device n = \<lparr>platform_data = None, of_node = Some n\<rparr>"

definition state_of :: "(int \<times> dsa_state) option \<Rightarrow> dsa_state \<Rightarrow> dsa_state" where
  "state_of r s = (case r of None \<Rightarrow> s | Some (err, s1) \<Rightarrow> s1)"

subsection \<open>Ports of a switch\<close>

text \<open>
  The descriptors of the ports of a switch. The uplink ports (classes DsaLink and Cpu)
  of a switch whose uplink setup fails, in the order of the port loop, and the ports that
  the loop of \<open>dsa_ds_apply\<close> reaches: the ones before the first uplink port whose setup
  fails.
\<close>

definition descr :: "dsa_switch \<Rightarrow> (device_node option \<times> string option) list" where
  "descr sw = map (\<lambda>p. (dn p, name p)) (ports sw)"

definition is_uplink :: "of_tree \<Rightarrow> dsa_port \<Rightarrow> bool" where
  "is_uplink dt p = (classify dt p = DsaLink \<or> classify dt p = Cpu)"

definition uplink_failures :: "collaborators \<Rightarrow> of_tree \<Rightarrow> dsa_switch \<Rightarrow> ds_ptr \<Rightarrow> nat list" where
  "uplink_failures cb dt sw d =
     filter (\<lambda>i. is_uplink dt (ports sw ! i) \<and> dsa_cpu_dsa_setup cb d i \<noteq> 0) [0 ..< num_ports sw]"

definition uplink_fails :: "collaborators \<Rightarrow> of_tree \<Rightarrow> ds_ptr \<Rightarrow> dsa_switch \<Rightarrow> nat \<Rightarrow> bool" where
  "uplink_fails cb dt d sw i = (is_uplink dt (ports sw ! i) \<and> dsa_cpu_dsa_setup cb d i \<noteq> 0)"

definition ports_reached :: "collaborators \<Rightarrow> of_tree \<Rightarrow> ds_ptr \<Rightarrow> dsa_switch \<Rightarrow> nat list \<Rightarrow> nat list" where
  "ports_reached cb dt d sw is = takeWhile (\<lambda>i. \<not> uplink_fails cb dt d sw i) is"

text \<open>
  What the apply of a user port leaves of it: the port holds the interface that
  \<open>dsa_slave_create\<close> has made for it under its label (the "label" property of its
  node, else its name, else "eth%d"), or no interface when that has failed. The ports of
  the other classes keep their fields.
\<close>

definition port_label :: "of_tree \<Rightarrow> dsa_port \<Rightarrow> string" where
  "port_label dt p =
     (case (case dn p of Some n \<Rightarrow> of_get_property dt n ''label'' | None \<Rightarrow> name p) of
        None \<Rightarrow> ''eth%d''
      | Some l \<Rightarrow> l)"

definition materialized :: "collaborators \<Rightarrow> of_tree \<Rightarrow> ds_ptr \<Rightarrow> nat \<Rightarrow> dsa_port \<Rightarrow> dsa_port" where
  "materialized cb dt d k p =
     (if classify dt p \<noteq> User then p
      else
        (case slave_create cb d k (port_label dt p) of
           Inr dev \<Rightarrow> p\<lparr>netdev := Some dev\<rparr>
         | Inl err \<Rightarrow> if err = 0 then p else p\<lparr>netdev := None\<rparr>))"

text \<open>
  The switch after the port loop over the indices \<open>is\<close>: every user port that is
  reached is materialized, the bit of every Cpu port that is reached is set in the CPU
  port mask, and nothing else has changed; \<open>apply_ports\<close> is the loop over all ports.
\<close>

definition apply_ports_on ::
  "collaborators \<Rightarrow> of_tree \<Rightarrow> ds_ptr \<Rightarrow> nat list \<Rightarrow> dsa_switch \<Rightarrow> dsa_switch" where
  "apply_ports_on cb dt d is sw =
     sw\<lparr>cpu_port_mask :=
          fold (\<lambda>k m. m OR BIT k)
            (filter (\<lambda>k. classify dt (ports sw ! k) = Cpu) (ports_reached cb dt d sw is))
            (cpu_port_mask sw),
        ports :=
          map (\<lambda>k. if k \<in> set (ports_reached cb dt d sw is)
                    then materialized cb dt d k (ports sw ! k) else ports sw ! k)
            [0 ..< num_ports sw]\<rparr>"

definition apply_ports :: "collaborators \<Rightarrow> of_tree \<Rightarrow> ds_ptr \<Rightarrow> dsa_switch \<Rightarrow> dsa_switch" where
  "apply_ports cb dt d sw = apply_ports_on cb dt d [0 ..< num_ports sw] sw"

text \<open>
  The steps of \<open>dsa_ds_apply\<close> before the port loop pass (\<open>ops->setup\<close>, the
  notifier, \<open>ops->set_addr\<close> when the driver has one, the slave MII bus when the driver
  has a \<open>phy_read\<close> and the switch no bus yet), and what they leave of the switch.
\<close>

definition after_prologue :: "collaborators \<Rightarrow> ds_ptr \<Rightarrow> dsa_switch \<Rightarrow> dsa_switch" where
  "after_prologue cb d sw =
     sw\<lparr>phys_mii_mask := enabled_port_mask sw,
        slave_mii_bus := (if slave_mii_bus sw = None \<and> ops_phy_read cb d
                          then devm_mdiobus_alloc cb d else slave_mii_bus sw)\<rparr>"

definition prologue_passes :: "collaborators \<Rightarrow> dsa_state \<Rightarrow> dst_ptr \<Rightarrow> ds_ptr \<Rightarrow> bool" where
  "prologue_passes cb s t d =
     (0 \<le> ops_setup cb d \<and> dsa_switch_register_notifier cb d = 0
      \<and> (case ops_set_addr cb d of
            None \<Rightarrow> True
          | Some set_addr \<Rightarrow>
              (case dst_master_netdev (trees s t) of None \<Rightarrow> False | Some m \<Rightarrow> 0 \<le> set_addr m))
      \<and> (slave_mii_bus (switches s d) = None \<and> ops_phy_read cb d \<longrightarrow>
            (case devm_mdiobus_alloc cb d of None \<Rightarrow> False | Some bus \<Rightarrow> 0 \<le> mdiobus_register cb bus)))"

subsection \<open>Negotiation\<close>

text \<open>
  The CPU ports that \<open>dsa_dst_parse\<close> visits, in the order of its loops (by slot,
  then by port index), as pairs of the switch and the port index. The test is the one of
  \<open>dsa_ds_parse\<close>, a valid port that passes \<open>dsa_port_is_cpu\<close>: a port that has
  a "link" reference as well is among them, although \<open>classify\<close> makes it a DsaLink
  port.
\<close>

definition switch_cpu_ports :: "of_tree \<Rightarrow> dsa_switch \<Rightarrow> nat list" where
  "switch_cpu_ports dt sw =
     filter (\<lambda>k. dsa_port_is_valid (ports sw ! k) \<and> dsa_port_is_cpu dt (ports sw ! k))
       [0 ..< num_ports sw]"

definition tree_cpu_ports :: "of_tree \<Rightarrow> dsa_state \<Rightarrow> dst_ptr \<Rightarrow> (ds_ptr \<times> nat) list" where
  "tree_cpu_ports dt s t =
     concat (map (\<lambda>i. case ds (trees s t) i of
                         None \<Rightarrow> []
                       | Some d \<Rightarrow> map (Pair d) (switch_cpu_ports dt (switches s d)))
               [0 ..< DSA_MAX_SWITCHES])"

text \<open>
  The master device that is found for a CPU port, if any, and the error of the lookup of
  the tagger of a switch (0 when there is one). \<open>reached\<close> lists the CPU ports at
  which a run gets as far as the election: the run ends at the first CPU port whose
  master device is not found, before the election, and at the first one whose switch has
  no tagger, after it.
\<close>

definition cpu_master :: "collaborators \<Rightarrow> of_tree \<Rightarrow> dsa_state \<Rightarrow> ds_ptr \<times> nat \<Rightarrow> net_device option" where
  "cpu_master cb dt s p =
     (case dn (ports (switches s (fst p)) ! snd p) of
        Some n \<Rightarrow>
          (case of_parse_phandle dt (Some n) ''ethernet'' 0 of
             None \<Rightarrow> None
           | Some ethernet \<Rightarrow> of_find_net_device_by_node cb ethernet)
      | None \<Rightarrow>
          (case cd (switches s (fst p)) of
             None \<Rightarrow> None
           | Some c \<Rightarrow> dsa_dev_to_net_device cb (cd_netdev c (snd p))))"

definition tagger_error :: "collaborators \<Rightarrow> ds_ptr \<Rightarrow> int" where
  "tagger_error cb d =
     (case dsa_resolve_tag_protocol cb (get_tag_protocol cb d) of Inl err \<Rightarrow> err | Inr handlers \<Rightarrow> 0)"

fun reached ::
  "collaborators \<Rightarrow> of_tree \<Rightarrow> dsa_state \<Rightarrow> (ds_ptr \<times> nat) list \<Rightarrow> (ds_ptr \<times> nat) list" where
  "reached cb dt s [] = []"
| "reached cb dt s (p # ps) =
     (if cpu_master cb dt s p = None then []
      else if tagger_error cb (fst p) \<noteq> 0 then [p]
      else p # reached cb dt s ps)"

text \<open>
  What a tree records of an election (CPU switch, CPU port, handler set), what it records
  once the election step has run for each port of a list, and the part of the store that
  negotiation leaves alone.
\<close>

definition election :: "dsa_switch_tree \<Rightarrow> ds_ptr option \<times> nat \<times> (int + dsa_device_ops) option" where
  "election tr = (cpu_switch tr, cpu_port tr, tag_ops tr)"

fun elect_all ::
  "collaborators \<Rightarrow> (ds_ptr \<times> nat) list \<Rightarrow> ds_ptr option \<times> nat \<times> (int + dsa_device_ops) option
     \<Rightarrow> ds_ptr option \<times> nat \<times> (int + dsa_device_ops) option" where
  "elect_all cb [] e = e"
| "elect_all cb (p # ps) (cs, cp, tg) =
     elect_all cb ps (if cs = None then Some (fst p) else cs, if cs = None then snd p else cp,
                      Some (dsa_resolve_tag_protocol cb (get_tag_protocol cb (fst p))))"

definition parse_frame :: "dst_ptr \<Rightarrow> dsa_state \<Rightarrow> dsa_state \<Rightarrow> bool" where
  "parse_frame t s s' =
     (ds (trees s' t) = ds (trees s t)
      \<and> (\<forall>p. ports (switches s' p) = ports (switches s p) \<and> cd (switches s' p) = cd (switches s p)))"

abbreviation cpu_port_ok :: "collaborators \<Rightarrow> of_tree \<Rightarrow> dsa_state \<Rightarrow> ds_ptr \<times> nat \<Rightarrow> bool" where
  "cpu_port_ok cb dt s p \<equiv> cpu_master cb dt s p \<noteq> None \<and> tagger_error cb (fst p) = 0"

section \<open>Example configurations\<close>

definition mk_port :: "device_node option \<Rightarrow> string option \<Rightarrow> dsa_port" where
  "mk_port n nm = \<lparr>dn = n, name = nm, netdev = None\<rparr>"

text \<open>A switch as registration leaves it in slot \<open>i\<close>, with an empty routing table.\<close>

definition mk_switch :: "nat \<Rightarrow> dsa_port list \<Rightarrow> dsa_switch" where
  "mk_switch i ps =
     \<lparr>dst = None, index = i, cd = None, ds_master_netdev = None, rtable = (\<lambda>_. word_of_int DSA_RTABLE_NONE),
      enabled_port_mask = 0, phys_mii_mask = 0, dsa_port_mask = 0, cpu_port_mask = 0,
      slave_mii_bus = None, ports = ps\<rparr>"

text \<open>A device tree given by the "link" and the "ethernet" references of its nodes.\<close>

definition mk_of_tree ::
  "(device_node \<times> device_node list) list \<Rightarrow> (device_node \<times> device_node list) list \<Rightarrow> of_tree" where
  "mk_of_tree links eths =
     \<lparr>phandles = (\<lambda>n p. if p = ''link'' then (case map_of links n of None \<Rightarrow> [] | Some l \<Rightarrow> l)
                         else if p = ''ethernet'' then (case map_of eths n of None \<Rightarrow> [] | Some l \<Rightarrow> l)
                         else []),
      u32_props = (\<lambda>_ _. None), string_props = (\<lambda>_ _. None), children = (\<lambda>_. [])\<rparr>"

text \<open>
  Two registered switches of one tree: switch 1 in slot 0 with the port nodes 10 and 11,
  switch 2 in slot 1 with the port node 20. In \<open>c1_of_partial\<close> node 10 links to node 20
  and back, and node 11 links to node 30, the port of a switch that has not registered;
  in \<open>c1_of_complete\<close> node 11 links to node 20 as well.
\<close>

definition c1_state :: dsa_state where
  "c1_state =
     \<lparr>dsa_switch_trees = \<lparr>lh_next = NODE 0, lh_prev = NODE 0\<rparr>,
      trees = (\<lambda>_. zero_tree)
         (0 := zero_tree\<lparr>list := \<lparr>lh_next = HEAD, lh_prev = HEAD\<rparr>, refcount := 2,
                 ds := (\<lambda>_. None)(0 := Some 1, 1 := Some 2)\<rparr>),
      allocated = (\<lambda>_. False)(0 := True),
      brk = 1,
      switches = (\<lambda>_. mk_switch 0 [])
         (1 := mk_switch 0 [mk_port (Some 10) None, mk_port (Some 11) None],
          2 := mk_switch 1 [mk_port (Some 20) None]),
      dsa_ptr = (\<lambda>_. None)\<rparr>"

definition c1_of_partial :: of_tree where
  "c1_of_partial = mk_of_tree [(10, [20]), (11, [30]), (20, [10])] []"

definition c1_of_complete :: of_tree where
  "c1_of_complete = mk_of_tree [(10, [20]), (11, [20]), (20, [10])] []"

subsection \<open>Sequences of registry calls\<close>

abbreviation add_members :: "dst_ptr \<Rightarrow> (ds_ptr \<times> nat) list \<Rightarrow> dsa_state \<Rightarrow> dsa_state" where
  "add_members t ms s \<equiv> fold (\<lambda>(d, i). dsa_dst_add_ds t d i) ms s"

abbreviation remove_members :: "dst_ptr \<Rightarrow> (ds_ptr \<times> nat) list \<Rightarrow> dsa_state \<Rightarrow> dsa_state" where
  "remove_members t ms s \<equiv> fold (\<lambda>(d, i). dsa_dst_del_ds t d i) ms s"

subsection \<open>Collaborators that succeed\<close>

text \<open>
  Every call succeeds: the node \<open>n\<close> of a master device has the live device \<open>n\<close>, the
  tag protocol of switch \<open>d\<close> is \<open>d\<close> and its handler set is \<open>d\<close> again, and the
  interface of port \<open>i\<close> of switch \<open>d\<close> is \<open>100 * d + i\<close>.
\<close>

definition cb_ok :: collaborators where
  "cb_ok =
     \<lparr>kzalloc_ok = True,
      of_find_net_device_by_node = (\<lambda>n. Some n),
      dsa_dev_to_net_device = (\<lambda>n. Some n),
      get_tag_protocol = (\<lambda>d. d),
      dsa_resolve_tag_protocol = (\<lambda>p. Inr p),
      ops_setup = (\<lambda>_. 0),
      dsa_switch_register_notifier = (\<lambda>_. 0),
      ops_set_addr = (\<lambda>_. None),
      ops_phy_read = (\<lambda>_. False),
      devm_mdiobus_alloc = (\<lambda>_. None),
      mdiobus_register = (\<lambda>_. 0),
      dsa_cpu_dsa_setup = (\<lambda>_ _. 0),
      slave_create = (\<lambda>d i _. Inr (100 * d + i)),
      dsa_cpu_port_ethtool_setup = (\<lambda>_. 0)\<rparr>"

text \<open>
  Two switches whose nodes 100 and 110 have no "dsa,member" property, and a third one
  whose node 120 has the member pair [1, 0]. Each has one port, with a link to node 300,
  the port of a switch that never registers, so every tree stays pending.
  \<open>c10_pending\<close> is the store once switch 1 has registered from node 100,
  \<open>c10_other_tree\<close> the store once switch 3 has registered from node 120 after it,
  and \<open>c10_split\<close> the store once switch 2 has registered from node 110 after both.
\<close>

definition c10_of :: of_tree where
  "c10_of =
     \<lparr>phandles = (\<lambda>n p. if p = ''link'' \<and> (n = 102 \<or> n = 112 \<or> n = 122) then [300] else []),
      u32_props = (\<lambda>n p. if p = ''reg'' \<and> (n = 102 \<or> n = 112 \<or> n = 122) then Some [0]
                         else if p = ''dsa,member'' \<and> n = 120 then Some [1, 0] else None),
      string_props = (\<lambda>_ _. None),
      children = (\<lambda>n. if n = 100 then [(''ports'', 101)] else if n = 101 then [(''port'', 102)]
                      else if n = 110 then [(''ports'', 111)] else if n = 111 then [(''port'', 112)]
                      else if n = 120 then [(''ports'', 121)] else if n = 121 then [(''port'', 122)]
                      else [])\<rparr>"

definition c10_boot :: dsa_state where
  "c10_boot = dsa_boot (\<lambda>_. dsa_switch_alloc 1)"

definition c10_pending :: dsa_state where
  "c10_pending =
     state_of (locked_dsa_register_switch cb_ok c10_of c10_boot 1 (of_device 100)) c10_boot"

definition c10_other_tree :: dsa_state where
  "c10_other_tree =
     state_of (locked_dsa_register_switch cb_ok c10_of c10_pending 3 (of_device 120)) c10_pending"

definition c10_split :: dsa_state where
  "c10_split =
     state_of (locked_dsa_register_switch cb_ok c10_of c10_other_tree 2 (of_device 110)) c10_other_tree"

text \<open>
  Two switches of tree 1. Switch 2 (node 110, slot 1) has the port node 112 and the CPU
  port node 113, whose master device is live; switch 1 (node 100, slot 0) has the port
  node 102 with a link to node 112. \<open>c9_applied\<close> is the store once switch 2 has
  registered alone: no link of it is open, so the tree is complete, parsed and applied.
\<close>

definition chain_of :: of_tree where
  "chain_of =
     \<lparr>phandles = (\<lambda>n p. if p = ''link'' \<and> n = 102 then [112]
                         else if p = ''ethernet'' \<and> n = 113 then [200] else []),
      u32_props = (\<lambda>n p. if p = ''dsa,member'' then (if n = 100 then Some [1, 0] else if n = 110 then Some [1, 1] else None)
                         else if p = ''reg'' then (if n = 102 then Some [2] else if n = 112 then Some [0]
                                                 else if n = 113 then Some [3] else None)
                         else None),
      string_props = (\<lambda>_ _. None),
      children = (\<lambda>n. if n = 100 then [(''ports'', 101)] else if n = 101 then [(''port'', 102)]
                      else if n = 110 then [(''ports'', 111)]
                      else if n = 111 then [(''port'', 112), (''port'', 113)] else [])\<rparr>"

definition chain_boot :: dsa_state where
  "chain_boot = dsa_boot (\<lambda>_. dsa_switch_alloc 4)"

definition c9_applied :: dsa_state where
  "c9_applied = state_of (locked_dsa_register_switch cb_ok chain_of chain_boot 2 (of_device 110)) chain_boot"

text \<open>
  The same two switches with switch 1 registering first: its link to node 112 is open,
  so the tree is left pending in \<open>c2_pending\<close>. Then switch 2 registers while the
  master device of its CPU port is not live yet (\<open>cb_defer\<close>); \<open>c2_deferred\<close> is the
  store after that call.
\<close>

definition cb_defer :: collaborators where
  "cb_defer = cb_ok\<lparr>of_find_net_device_by_node := (\<lambda>_. None)\<rparr>"

definition c2_pending :: dsa_state where
  "c2_pending =
     state_of (locked_dsa_register_switch cb_ok chain_of chain_boot 1 (of_device 100)) chain_boot"

definition c2_deferred :: dsa_state where
  "c2_deferred =
     state_of (locked_dsa_register_switch cb_defer chain_of c2_pending 2 (of_device 110)) c2_pending"

text \<open>
  A switch with a user port (node 112), a port named "cpu" and a second user port
  (node 114). With \<open>c8_user_fails\<close> no interface can be created for port 0; with
  \<open>c8_cpu_fails\<close> the uplink setup fails.
\<close>

definition c8_state :: dsa_state where
  "c8_state = dsa_boot ((\<lambda>_. mk_switch 0 [])
      (1 := mk_switch 0 [mk_port (Some 112) None, mk_port None (Some ''cpu''), mk_port (Some 114) None]))"

definition c8_user_fails :: collaborators where
  "c8_user_fails = cb_ok\<lparr>slave_create := (\<lambda>d i _. if i = 0 then Inl (- ENOMEM) else Inr (100 * d + i))\<rparr>"

definition c8_cpu_fails :: collaborators where
  "c8_cpu_fails = cb_ok\<lparr>dsa_cpu_dsa_setup := (\<lambda>_ _. - ENODEV)\<rparr>"

text \<open>
  A complete tree of two switches, each with a link to the other and with a CPU port of
  its own (nodes 103 and 113), before negotiation; \<open>c7_parsed\<close> is the store after it.
  In \<open>c7_both_of\<close> the link port of switch 1 (node 102) has an "ethernet" reference
  too.
\<close>

definition c7_of :: of_tree where
  "c7_of = mk_of_tree [(102, [112]), (112, [102])] [(103, [200]), (113, [201])]"

definition c7_state :: dsa_state where
  "c7_state =
     \<lparr>dsa_switch_trees = \<lparr>lh_next = NODE 0, lh_prev = NODE 0\<rparr>,
      trees = (\<lambda>_. zero_tree)
         (0 := zero_tree\<lparr>list := \<lparr>lh_next = HEAD, lh_prev = HEAD\<rparr>, refcount := 2,
                 ds := (\<lambda>_. None)(0 := Some 1, 1 := Some 2)\<rparr>),
      allocated = (\<lambda>_. False)(0 := True),
      brk = 1,
      switches = (\<lambda>_. mk_switch 0 [])
         (1 := mk_switch 0 [mk_port (Some 102) None, mk_port (Some 103) None],
          2 := mk_switch 1 [mk_port (Some 112) None, mk_port (Some 113) None]),
      dsa_ptr = (\<lambda>_. None)\<rparr>"

definition c7_parsed :: dsa_state where
  "c7_parsed = state_of (dsa_dst_parse cb_ok c7_of c7_state 0) c7_state"

definition c7_both_of :: of_tree where
  "c7_both_of = mk_of_tree [(102, [112]), (112, [102])] [(102, [200]), (103, [200]), (113, [201])]"

text \<open>
  Two switches of tree 1 without links. Switch 2 (node 110, slot 1) has two CPU ports:
  the master device of the first (node 113) is live, the one of the second (node 114) is
  not (\<open>cb_one_master\<close>). Switch 1 (node 100, slot 0) has one CPU port (node 103) with
  a live master device. \<open>c7_deferred\<close> is the store once the registration of switch 2
  has been deferred, \<open>c7_stale\<close> the store once switch 1 has registered after that.
\<close>

definition c7_retry_of :: of_tree where
  "c7_retry_of =
     \<lparr>phandles = (\<lambda>n p. if p = ''ethernet'' \<and> (n = 103 \<or> n = 113) then [200]
                         else if p = ''ethernet'' \<and> n = 114 then [201] else []),
      u32_props = (\<lambda>n p. if p = ''dsa,member'' then (if n = 100 then Some [1, 0] else if n = 110 then Some [1, 1] else None)
                         else if p = ''reg'' then (if n = 103 then Some [0] else if n = 113 then Some [0]
                                                 else if n = 114 then Some [1] else None)
                         else None),
      string_props = (\<lambda>_ _. None),
      children = (\<lambda>n. if n = 100 then [(''ports'', 101)] else if n = 101 then [(''port'', 103)]
                      else if n = 110 then [(''ports'', 111)]
                      else if n = 111 then [(''port'', 113), (''port'', 114)] else [])\<rparr>"

definition cb_one_master :: collaborators where
  "cb_one_master = cb_ok\<lparr>of_find_net_device_by_node := (\<lambda>n. if n = 201 then None else Some n)\<rparr>"

definition c7_deferred :: dsa_state where
  "c7_deferred =
     state_of (locked_dsa_register_switch cb_one_master c7_retry_of chain_boot 2 (of_device 110)) chain_boot"

definition c7_stale :: dsa_state where
  "c7_stale =
     state_of (locked_dsa_register_switch cb_one_master c7_retry_of c7_deferred 1 (of_device 100)) c7_deferred"

section \<open>Properties\<close>

subsection \<open>Port classifier\<close>

text \<open>
  C6. Classification is a function of the port descriptor alone and yields exactly one
  of the four classes, decided in the order of the dispatch in \<open>dsa_ds_apply\<close>:
  Invalid when the port has neither a device-tree node nor a name; otherwise DsaLink when
  the name is "dsa" or the node has a resolvable "link" reference; otherwise Cpu when the
  name is "cpu" or the node has a resolvable "ethernet" reference; otherwise User.
\<close>

theorem classify_spec:
  "classify dt port =
     (if dn port = None \<and> name port = None then Invalid
      else if name port = Some ''dsa'' \<or> (\<exists>n l. dn port = Some n \<and> of_parse_phandle dt (Some n) ''link'' 0 = Some l)
        then DsaLink
      else if name port = Some ''cpu'' \<or> (\<exists>n e. dn port = Some n \<and> of_parse_phandle dt (Some n) ''ethernet'' 0 = Some e)
        then Cpu
      else User)"
  by (cases "dn port"; cases "name port")
     (auto simp: classify_def dsa_port_is_valid_def dsa_port_is_dsa_def dsa_port_is_cpu_def
                 of_parse_phandle_def)

subsection \<open>Topology resolver\<close>

lemma same_topology_refl [simp]: "same_topology s s"
  by (simp add: same_topology_def)

lemma same_topology_trans: "same_topology s s1 \<Longrightarrow> same_topology s1 s2 \<Longrightarrow> same_topology s s2"
  by (simp add: same_topology_def)

lemma dsa_ds_find_port_dn_loop_iff:
  "dsa_ds_find_port_dn_loop d port is = (\<exists>i\<in>set is. dn (ports d ! i) = port)"
  by (induction "is") auto

lemma dsa_ds_find_port_dn_iff:
  "dsa_ds_find_port_dn d port = (\<exists>i<num_ports d. dn (ports d ! i) = port)"
  by (auto simp: dsa_ds_find_port_dn_def dsa_ds_find_port_dn_loop_iff)

lemma dsa_dst_find_port_dn_loop_None:
  "dsa_dst_find_port_dn_loop s t port is = None \<longleftrightarrow>
     (\<forall>i\<in>set is. \<forall>d. ds (trees s t) i = Some d \<longrightarrow> \<not> dsa_ds_find_port_dn (switches s d) port)"
  by (induction "is") (auto split: option.splits)

lemma dsa_dst_find_port_dn_None_iff:
  "dsa_dst_find_port_dn s t (Some link) = None \<longleftrightarrow> \<not> member_port s t link"
  by (auto simp: dsa_dst_find_port_dn_def dsa_dst_find_port_dn_loop_None member_port_def
        list_ex_iff dsa_ds_find_port_dn_iff split: option.splits)

lemma dsa_ds_find_port_dn_topology:
  "same_topology s s' \<Longrightarrow> dsa_ds_find_port_dn (switches s' d) port = dsa_ds_find_port_dn (switches s d) port"
  by (simp add: same_topology_def dsa_ds_find_port_dn_iff)

lemma dsa_dst_find_port_dn_loop_topology:
  "same_topology s s' \<Longrightarrow> dsa_dst_find_port_dn_loop s' t port is = dsa_dst_find_port_dn_loop s t port is"
proof (induction "is")
  case Nil
  then show ?case by simp
next
  case (Cons i rest)
  then show ?case
    using dsa_ds_find_port_dn_topology[OF Cons.prems]
    by (simp add: same_topology_def split: option.splits)
qed

lemma dsa_dst_find_port_dn_topology:
  "same_topology s s' \<Longrightarrow> dsa_dst_find_port_dn s' t port = dsa_dst_find_port_dn s t port"
  by (simp add: dsa_dst_find_port_dn_def dsa_dst_find_port_dn_loop_topology)

lemma member_port_topology:
  "same_topology s s' \<Longrightarrow> member_port s' t link = member_port s t link"
  using dsa_dst_find_port_dn_None_iff dsa_dst_find_port_dn_topology by metis

lemma same_topology_rtable [simp]:
  "same_topology s (switch_store d (\<lambda>x. x\<lparr>rtable := f x\<rparr>) s)"
  by (simp add: same_topology_def switch_store_def)

lemma same_topology_mask [simp]:
  "same_topology s (switch_store d (\<lambda>x. x\<lparr>dsa_port_mask := f x\<rparr>) s)"
  by (simp add: same_topology_def switch_store_def)

lemma dsa_port_complete_loop_topology:
  "same_topology s (snd (dsa_port_complete_loop dt s t src port sp i))"
proof (induction dt s t src port sp i rule: dsa_port_complete_loop.induct)
  case (1 dt s t src_ds port src_port i)
  show ?case
    apply (subst dsa_port_complete_loop.simps)
    apply (auto split: option.splits)
    apply (rule same_topology_trans[OF _ 1])
    apply auto
    done
qed

lemma dsa_port_complete_loop_verdict:
  "fst (dsa_port_complete_loop dt s t src port sp i) =
     (if list_all (member_port s t) (drop i (port_links dt port)) then 0 else 1)"
proof (induction dt s t src port sp i rule: dsa_port_complete_loop.induct)
  case (1 dt s t src_ds port src_port i)
  show ?case
  proof (cases "of_parse_phandle dt (dn port) ''link'' i")
    case None
    then have "drop i (port_links dt port) = []"
      by (auto simp: of_parse_phandle_def port_links_def split: option.splits if_splits)
    with None show ?thesis by (subst dsa_port_complete_loop.simps) simp
  next
    case (Some link)
    then have d: "drop i (port_links dt port) = link # drop (Suc i) (port_links dt port)"
      by (auto simp: of_parse_phandle_def port_links_def Cons_nth_drop_Suc split: option.splits if_splits)
    show ?thesis
    proof (cases "dsa_dst_find_port_dn s t (Some link)")
      case None
      then have "\<not> member_port s t link"
        by (simp add: dsa_dst_find_port_dn_None_iff)
      with None Some d show ?thesis
        by (subst dsa_port_complete_loop.simps) simp
    next
      case found: (Some dst_ds)
      have m: "member_port s t link"
        using found dsa_dst_find_port_dn_None_iff[of s t link] by auto
      show ?thesis
        apply (subst dsa_port_complete_loop.simps)
        using Some found d m
        apply (simp add: 1)
        apply (simp add: list_all_iff member_port_topology[OF same_topology_rtable])
        done
    qed
  qed
qed

lemma dsa_port_complete_topology:
  "same_topology s (snd (dsa_port_complete dt s t src port sp))"
  by (simp add: dsa_port_complete_def dsa_port_complete_loop_topology)

lemma dsa_port_complete_verdict:
  "fst (dsa_port_complete dt s t src port sp) = (if port_resolves dt s t port then 0 else 1)"
  by (simp add: dsa_port_complete_def dsa_port_complete_loop_verdict port_resolves_def)

lemma classify_DsaLink:
  "classify dt port = DsaLink \<longleftrightarrow> dsa_port_is_valid port \<and> dsa_port_is_dsa dt port"
  by (simp add: classify_def)

lemma port_resolves_topology:
  "same_topology s s' \<Longrightarrow> port_resolves dt s' t port = port_resolves dt s t port"
  by (simp add: port_resolves_def list_all_iff member_port_topology)

lemma same_topology_ports:
  "same_topology s s' \<Longrightarrow> ports (switches s' d) = ports (switches s d)"
  by (simp add: same_topology_def)

lemma same_topology_trees:
  "same_topology s s' \<Longrightarrow> trees s' = trees s"
  by (simp add: same_topology_def)

lemma dsa_ds_complete_loop_topology:
  "same_topology s (snd (dsa_ds_complete_loop dt s t d is))"
proof (induction "is" arbitrary: s)
  case Nil
  then show ?case by simp
next
  case (Cons i rest)
  obtain err s1 where pc: "dsa_port_complete dt s t d (ports (switches s d) ! i) i = (err, s1)"
    by (cases "dsa_port_complete dt s t d (ports (switches s d) ! i) i")
  have t1: "same_topology s s1"
    using dsa_port_complete_topology[of s dt t d "ports (switches s d) ! i" i] pc by simp
  let ?s2 = "switch_store d (\<lambda>x. x\<lparr>dsa_port_mask := dsa_port_mask x OR BIT i\<rparr>) s1"
  have t2: "same_topology s ?s2"
    by (rule same_topology_trans[OF t1 same_topology_mask])
  show ?case
    using pc t1 same_topology_trans[OF t2 Cons.IH[of ?s2]] Cons.IH[of s]
    by (simp add: Let_def)
qed

lemma dsa_ds_complete_loop_verdict:
  "fst (dsa_ds_complete_loop dt s t d is) =
     (if list_all (\<lambda>p. classify dt (ports (switches s d) ! p) = DsaLink \<longrightarrow>
                  port_resolves dt s t (ports (switches s d) ! p)) is then 0 else 1)"
proof (induction "is" arbitrary: s)
  case Nil
  then show ?case by simp
next
  case (Cons i rest)
  obtain err s1 where pc: "dsa_port_complete dt s t d (ports (switches s d) ! i) i = (err, s1)"
    by (cases "dsa_port_complete dt s t d (ports (switches s d) ! i) i")
  have t1: "same_topology s s1"
    using dsa_port_complete_topology[of s dt t d "ports (switches s d) ! i" i] pc by simp
  have e: "err = (if port_resolves dt s t (ports (switches s d) ! i) then 0 else 1)"
    using dsa_port_complete_verdict[of dt s t d "ports (switches s d) ! i" i] pc by simp
  let ?s2 = "switch_store d (\<lambda>x. x\<lparr>dsa_port_mask := dsa_port_mask x OR BIT i\<rparr>) s1"
  have t2: "same_topology s ?s2"
    by (rule same_topology_trans[OF t1 same_topology_mask])
  show ?case
    using pc e Cons.IH[of ?s2] Cons.IH[of s]
    by (simp add: Let_def classify_DsaLink port_resolves_topology[OF t2] same_topology_ports[OF t2])
qed

lemma dsa_ds_complete_topology:
  "same_topology s (snd (dsa_ds_complete dt s t d))"
  by (simp add: dsa_ds_complete_def dsa_ds_complete_loop_topology)

lemma dsa_ds_complete_verdict:
  "fst (dsa_ds_complete dt s t d) = (if switch_resolves dt s t d then 0 else 1)"
  by (simp add: dsa_ds_complete_def dsa_ds_complete_loop_verdict switch_resolves_def)

lemma switch_resolves_topology:
  "same_topology s s' \<Longrightarrow> switch_resolves dt s' t d = switch_resolves dt s t d"
  by (simp add: switch_resolves_def port_resolves_topology same_topology_ports)

lemma dsa_dst_complete_loop_topology:
  "same_topology s (snd (dsa_dst_complete_loop dt s t is))"
proof (induction "is" arbitrary: s)
  case Nil
  then show ?case by simp
next
  case (Cons i rest)
  show ?case
  proof (cases "ds (trees s t) i")
    case None
    then show ?thesis using Cons.IH[of s] by simp
  next
    case (Some d)
    obtain err s1 where c: "dsa_ds_complete dt s t d = (err, s1)"
      by (cases "dsa_ds_complete dt s t d")
    have t1: "same_topology s s1"
      using dsa_ds_complete_topology[of s dt t d] c by simp
    show ?thesis
      using Some c t1 same_topology_trans[OF t1 Cons.IH[of s1]] by simp
  qed
qed

lemma dsa_dst_complete_loop_verdict:
  "fst (dsa_dst_complete_loop dt s t is) =
     (if list_all (\<lambda>i. case ds (trees s t) i of None \<Rightarrow> True | Some d \<Rightarrow> switch_resolves dt s t d) is
      then 0 else 1)"
proof (induction "is" arbitrary: s)
  case Nil
  then show ?case by simp
next
  case (Cons i rest)
  show ?case
  proof (cases "ds (trees s t) i")
    case None
    then show ?thesis using Cons.IH[of s] by simp
  next
    case (Some d)
    obtain err s1 where c: "dsa_ds_complete dt s t d = (err, s1)"
      by (cases "dsa_ds_complete dt s t d")
    have t1: "same_topology s s1"
      using dsa_ds_complete_topology[of s dt t d] c by simp
    have e: "err = (if switch_resolves dt s t d then 0 else 1)"
      using dsa_ds_complete_verdict[of dt s t d] c by simp
    show ?thesis
      using Some c e Cons.IH[of s1]
      by (simp add: same_topology_trees[OF t1] switch_resolves_topology[OF t1] cong: option.case_cong)
  qed
qed


lemmas c1_eval =
  mk_port_def mk_switch_def mk_of_tree_def c1_state_def c1_of_partial_def c1_of_complete_def
  dsa_dst_complete_def dsa_ds_complete_def dsa_port_complete_def dsa_port_complete_loop.simps
  dsa_dst_find_port_dn_def dsa_ds_find_port_dn_def of_parse_phandle_def dsa_port_is_valid_def
  dsa_port_is_dsa_def switch_store_def BIT_def DSA_MAX_SWITCHES_def DSA_RTABLE_NONE_def
  zero_tree_def Let_def upt_conv_Cons




subsection \<open>Tree registry\<close>

lemma refcount_set_next [simp]: "refcount (trees (set_next n v s) t) = refcount (trees s t)"
  by (cases n) (simp_all add: set_next_def tree_store_def)

lemma refcount_set_prev [simp]: "refcount (trees (set_prev n v s) t) = refcount (trees s t)"
  by (cases n) (simp_all add: set_prev_def tree_store_def)

lemma allocated_set_next [simp]: "allocated (set_next n v s) = allocated s"
  by (cases n) (simp_all add: set_next_def tree_store_def)

lemma allocated_set_prev [simp]: "allocated (set_prev n v s) = allocated s"
  by (cases n) (simp_all add: set_prev_def tree_store_def)

lemma refcount_list_del [simp]: "refcount (trees (list_del n s) t) = refcount (trees s t)"
  by (simp add: list_del_def Let_def)

lemma allocated_list_del [simp]: "allocated (list_del n s) = allocated s"
  by (simp add: list_del_def Let_def)

lemma refcount_list_add_tail [simp]: "refcount (trees (list_add_tail n h s) t) = refcount (trees s t)"
  by (simp add: list_add_tail_def list_add_between_def)

lemma allocated_list_add_tail [simp]: "allocated (list_add_tail n h s) = allocated s"
  by (simp add: list_add_tail_def list_add_between_def)

lemma refcount_dsa_free_dst [simp]: "refcount (trees (dsa_free_dst p s) t) = refcount (trees s t)"
  by (simp add: dsa_free_dst_def kfree_def)

lemma allocated_dsa_free_dst [simp]: "allocated (dsa_free_dst p s) = (allocated s)(p := False)"
  by (simp add: dsa_free_dst_def kfree_def)

lemma dsa_add_dst_fresh:
  assumes "dsa_add_dst cb s0 tr = (Some t, s)"
  shows "refcount (trees s t) = 1 \<and> allocated s t"
  using assms
  by (auto simp: dsa_add_dst_def kzalloc_def Let_def kref_init_def tree_store_def INIT_LIST_HEAD_def
        split: if_splits)

lemma refcount_add_ds [simp]:
  "refcount (trees (dsa_dst_add_ds t d i s) t) = refcount (trees s t) + 1"
  by (simp add: dsa_dst_add_ds_def kref_get_def tree_store_def)

lemma allocated_add_ds [simp]: "allocated (dsa_dst_add_ds t d i s) = allocated s"
  by (simp add: dsa_dst_add_ds_def kref_get_def tree_store_def)

lemma refcount_del_ds [simp]:
  "refcount (trees (dsa_dst_del_ds t d i s) t) = refcount (trees s t) - 1"
  by (simp add: dsa_dst_del_ds_def kref_put_def tree_store_def Let_def)

lemma allocated_del_ds:
  "allocated (dsa_dst_del_ds t d i s) = (if refcount (trees s t) = 1 then (allocated s)(t := False) else allocated s)"
  by (simp add: dsa_dst_del_ds_def kref_put_def tree_store_def Let_def)

lemma refcount_put_dst [simp]:
  "refcount (trees (dsa_put_dst t s) t) = refcount (trees s t) - 1"
  by (simp add: dsa_put_dst_def kref_put_def tree_store_def Let_def)

lemma allocated_put_dst:
  "allocated (dsa_put_dst t s) = (if refcount (trees s t) = 1 then (allocated s)(t := False) else allocated s)"
  by (simp add: dsa_put_dst_def kref_put_def tree_store_def Let_def)

lemma refcount_add_members:
  "refcount (trees (add_members t ms s) t) = refcount (trees s t) + int (length ms)"
  by (induction ms arbitrary: s) (auto simp: case_prod_beta)

lemma allocated_add_members: "allocated (add_members t ms s) = allocated s"
  by (induction ms arbitrary: s) (auto simp: case_prod_beta)

lemma refcount_remove_members:
  "refcount (trees (remove_members t ms s) t) = refcount (trees s t) - int (length ms)"
  by (induction ms arbitrary: s) (auto simp: case_prod_beta)

lemma allocated_remove_members:
  "int (length ms) < refcount (trees s t) \<Longrightarrow> allocated (remove_members t ms s) = allocated s"
  by (induction ms arbitrary: s) (auto simp: case_prod_beta allocated_del_ds)

lemma length_butlast_int: "ms \<noteq> [] \<Longrightarrow> int (length (butlast ms)) = int (length ms) - 1"
  by (cases ms) simp_all

lemma freed_by_last_removal:
  assumes "int (length ms) = refcount (trees s t)" "ms \<noteq> []"
  shows "\<not> allocated (remove_members t ms s) t"
proof -
  obtain d i where ms: "ms = butlast ms @ [(d, i)]"
    using assms(2) by (metis append_butlast_last_id surj_pair)
  let ?s = "remove_members t (butlast ms) s"
  have "refcount (trees ?s t) = 1"
    using assms length_butlast_int[OF assms(2)] by (simp add: refcount_remove_members del: length_butlast)
  moreover have "remove_members t ms s = dsa_dst_del_ds t d i ?s"
    by (subst ms) simp
  ultimately show ?thesis by (simp add: allocated_del_ds)
qed

lemmas registry_eval =
  dsa_boot_def dsa_add_dst_def kzalloc_def cb_ok_def INIT_LIST_HEAD_def list_add_tail_def
  list_add_between_def set_next_def set_prev_def get_next_def get_prev_def kref_init_def
  kref_get_def kref_put_def tree_store_def dsa_dst_add_ds_def dsa_dst_del_ds_def dsa_put_dst_def
  dsa_free_dst_def kfree_def list_del_def zero_tree_def Let_def

text \<open>
  C4, as the claim states it, fails for N = 1: a tree created by \<open>dsa_add_dst\<close> has the
  reference count 1; after one \<open>dsa_dst_add_ds\<close> and one \<open>dsa_dst_del_ds\<close> it is still
  allocated, with the reference count 1 again.
\<close>

theorem creator_reference_outlives_members:
  "fst (dsa_add_dst cb_ok (dsa_boot (\<lambda>_. dsa_switch_alloc 0)) 5) = Some 0
   \<and> refcount (trees (snd (dsa_add_dst cb_ok (dsa_boot (\<lambda>_. dsa_switch_alloc 0)) 5)) 0) = 1
   \<and> allocated (dsa_dst_del_ds 0 1 0 (dsa_dst_add_ds 0 1 0
        (snd (dsa_add_dst cb_ok (dsa_boot (\<lambda>_. dsa_switch_alloc 0)) 5)))) 0
   \<and> refcount (trees (dsa_dst_del_ds 0 1 0 (dsa_dst_add_ds 0 1 0
        (snd (dsa_add_dst cb_ok (dsa_boot (\<lambda>_. dsa_switch_alloc 0)) 5)))) 0) = 1"
  by (simp add: registry_eval)

text \<open>
  C4 (amended). A tree created by \<open>dsa_add_dst\<close> (reference count 1) that receives
  N \<ge> 1 \<open>dsa_dst_add_ds\<close> calls and then N \<open>dsa_dst_del_ds\<close> calls is not freed by the
  N-th removal: it still exists with reference count 1, the reference of its creator, and
  \<open>dsa_put_dst\<close> then frees it; after N - 1 removals the count is 2. When the
  creator's reference is released before the removals, as \<open>_dsa_register_switch\<close> does,
  the N-th removal frees the tree, and after N - 1 removals it exists with reference
  count 1.
\<close>

theorem tree_refcount_members:
  assumes "dsa_add_dst cb s0 tr = (Some t, s)" and "ms \<noteq> []"
  shows "(let s1 = add_members t ms s;
              sN = remove_members t ms s1;
              sN1 = remove_members t (butlast ms) s1
          in allocated sN t \<and> refcount (trees sN t) = 1 \<and> \<not> allocated (dsa_put_dst t sN) t
             \<and> allocated sN1 t \<and> refcount (trees sN1 t) = 2)
       \<and> (let s1 = dsa_put_dst t (add_members t ms s);
               sN = remove_members t ms s1;
               sN1 = remove_members t (butlast ms) s1
           in \<not> allocated sN t \<and> allocated sN1 t \<and> refcount (trees sN1 t) = 1)"
proof -
  have r: "refcount (trees s t) = 1" and a: "allocated s t"
    using dsa_add_dst_fresh[OF assms(1)] by simp_all
  have l: "0 < length ms" using assms(2) by simp
  let ?s1 = "add_members t ms s"
  have r1: "refcount (trees ?s1 t) = 1 + int (length ms)"
    by (simp add: refcount_add_members r)
  have a1: "allocated ?s1 t" by (simp add: allocated_add_members a)
  have p1: "allocated (remove_members t ms ?s1) t"
    by (simp add: allocated_remove_members r1 a1)
  have p2: "refcount (trees (remove_members t ms ?s1) t) = 1"
    by (simp add: refcount_remove_members r1)
  have p3: "\<not> allocated (dsa_put_dst t (remove_members t ms ?s1)) t"
    by (simp add: allocated_put_dst p2)
  have p4: "allocated (remove_members t (butlast ms) ?s1) t"
    using length_butlast_int[OF assms(2)] by (simp add: allocated_remove_members r1 a1 del: length_butlast)
  have p5: "refcount (trees (remove_members t (butlast ms) ?s1) t) = 2"
    using length_butlast_int[OF assms(2)] by (simp add: refcount_remove_members r1 del: length_butlast)
  let ?s2 = "dsa_put_dst t ?s1"
  have r2: "refcount (trees ?s2 t) = int (length ms)"
    by (simp add: r1)
  have a2: "allocated ?s2 t"
    using l by (simp add: allocated_put_dst r1 a1)
  have q1: "\<not> allocated (remove_members t ms ?s2) t"
    by (rule freed_by_last_removal[OF r2[symmetric] assms(2)])
  have "int (length (butlast ms)) < refcount (trees ?s2 t)"
    using length_butlast_int[OF assms(2)] r2 by linarith
  then have "allocated (remove_members t (butlast ms) ?s2) = allocated ?s2"
    by (rule allocated_remove_members)
  then have q2: "allocated (remove_members t (butlast ms) ?s2) t"
    using a2 by simp
  have "refcount (trees (remove_members t (butlast ms) ?s2) t) = refcount (trees ?s2 t) - int (length (butlast ms))"
    by (rule refcount_remove_members)
  then have q3: "refcount (trees (remove_members t (butlast ms) ?s2) t) = 1"
    using length_butlast_int[OF assms(2)] r2 by linarith
  show ?thesis
    unfolding Let_def using p1 p2 p3 p4 p5 q1 q2 q3 by blast
qed

theorem tree_refcount_members_witness:
  "dsa_add_dst cb_ok (dsa_boot (\<lambda>_. dsa_switch_alloc 0)) 5
     = (Some 0, snd (dsa_add_dst cb_ok (dsa_boot (\<lambda>_. dsa_switch_alloc 0)) 5))
   \<and> [(1, 0), (2, 1)] \<noteq> ([] :: (ds_ptr \<times> nat) list)
   \<and> \<not> allocated (remove_members 0 [(1, 0), (2, 1)]
          (dsa_put_dst 0 (add_members 0 [(1, 0), (2, 1)]
             (snd (dsa_add_dst cb_ok (dsa_boot (\<lambda>_. dsa_switch_alloc 0)) 5))))) 0
   \<and> refcount (trees (remove_members 0 [(1, 0)]
          (dsa_put_dst 0 (add_members 0 [(1, 0), (2, 1)]
             (snd (dsa_add_dst cb_ok (dsa_boot (\<lambda>_. dsa_switch_alloc 0)) 5))))) 0) = 1
   \<and> refcount (trees (remove_members 0 [(1, 0), (2, 1)]
          (add_members 0 [(1, 0), (2, 1)]
             (snd (dsa_add_dst cb_ok (dsa_boot (\<lambda>_. dsa_switch_alloc 0)) 5)))) 0) = 1"
proof -
  have c: "dsa_add_dst cb_ok (dsa_boot (\<lambda>_. dsa_switch_alloc 0)) 5
             = (Some 0, snd (dsa_add_dst cb_ok (dsa_boot (\<lambda>_. dsa_switch_alloc 0)) 5))"
    by (simp add: dsa_add_dst_def kzalloc_def cb_ok_def dsa_boot_def Let_def)
  have n: "[(1, 0), (2, 1)] \<noteq> ([] :: (ds_ptr \<times> nat) list)"
    by simp
  show ?thesis
    using c tree_refcount_members [OF c n] by (simp add: Let_def)
qed

subsection \<open>Registration orchestrator\<close>

lemma replicate_numeral: "replicate (numeral k) x = x # replicate (pred_numeral k) x"
  by (simp add: numeral_eq_Suc)

lemmas reg_eval =
  locked_dsa_register_switch_def register_parse_def register_member_def register_claim_def
  state_of_def
  of_device_def dsa_parse_member_dn_def dsa_parse_member_def dsa_get_ports_def
  dsa_parse_ports_dn_def dsa_parse_ports_def of_get_child_by_name_def
  of_property_read_u32_def of_property_read_u32_index_def
  dsa_get_dst_def dsa_get_dst_walk.simps
  dsa_dst_complete_def dsa_ds_complete_def dsa_port_complete_def dsa_port_complete_loop.simps
  dsa_dst_find_port_dn_def dsa_ds_find_port_dn_def of_parse_phandle_def dsa_port_is_valid_def
  dsa_port_is_dsa_def dsa_port_is_cpu_def switch_store_def BIT_def
  dsa_dst_parse_def dsa_ds_parse_def dsa_cpu_parse_def
  dsa_dst_apply_def dsa_ds_apply_def dsa_dsa_port_apply_def dsa_cpu_port_apply_def
  dsa_user_port_apply_def dsa_slave_create_def of_get_property_def
  dsa_dst_unapply_def dsa_ds_unapply_def dsa_dsa_port_unapply_def dsa_cpu_port_unapply_def
  dsa_user_port_unapply_def
  DSA_MAX_SWITCHES_def DSA_MAX_PORTS_def DSA_RTABLE_NONE_def dsa_switch_alloc_def
  EINVAL_def EBUSY_def ENOMEM_def EPROBE_DEFER_def ENODATA_def EOVERFLOW_def ENODEV_def
  registry_eval upt_conv_Cons

text \<open>
  In device-tree mode a node without a "dsa,member" property is no error:
  \<open>dsa_parse_member_dn\<close> returns 0 with tree 0 and index 0, and the head of
  registration passes this pair on to the lookup.
\<close>

lemma dsa_parse_member_dn_default:
  assumes "of_node dev = Some np" and "u32_props dt np ''dsa,member'' = None"
  shows "dsa_parse_member_dn dt np = (0, 0, 0)
     \<and> map_option (\<lambda>(err, tr, idx, s1). (tr, idx)) (register_parse dt s d dev) = Some (0, 0)"
proof -
  have m: "dsa_parse_member_dn dt np = (0, 0, 0)"
    using assms(2) by (simp add: dsa_parse_member_dn_def of_property_read_u32_index_def)
  have "\<exists>err s1. register_parse dt s d dev = Some (err, 0, 0, s1)"
  proof (cases "dsa_get_ports dt np")
    case (Inl e)
    then show ?thesis using assms(1) m by (simp add: register_parse_def)
  next
    case (Inr ports_node)
    then show ?thesis
      using assms(1) m
      by (cases "dsa_parse_ports_dn dt s ports_node d") (simp add: register_parse_def)
  qed
  with m show ?thesis by auto
qed

lemmas c10_eval =
  c10_split_def c10_other_tree_def c10_pending_def c10_of_def c10_boot_def reg_eval replicate_numeral

text \<open>
  C10 fails on the code. The nodes 100 and 110 have no "dsa,member" property, and both
  switches are given tree 0 and index 0 without an error. When switch 2 registers right
  after switch 1, the lookup finds tree 0 with slot 0 taken and the answer is
  \<open>-EBUSY\<close>. But when switch 3 of tree 1 has registered in between, the registry no
  longer reaches the tree of switch 1: \<open>dsa_add_dst\<close> calls
  \<open>list_add_tail(&dsa_switch_trees, &dst->list)\<close> with the arguments exchanged, so the
  global head is moved into the list of the newest tree and the older trees drop out of
  the walk of \<open>dsa_get_dst\<close>. Switch 2 then registers with 0 into a second tree with
  the identifier 0 (at address 2), while the first one (at address 0) still holds
  switch 1: the two switches do not compete for one slot.
\<close>

theorem memberless_switches_in_separate_trees:
  "u32_props c10_of 100 ''dsa,member'' = None
   \<and> u32_props c10_of 110 ''dsa,member'' = None
   \<and> map_option fst (locked_dsa_register_switch cb_ok c10_of c10_boot 1 (of_device 100)) = Some 0
   \<and> tree (trees c10_pending 0) = 0
   \<and> ds (trees c10_pending 0) 0 = Some 1
   \<and> map_option fst (locked_dsa_register_switch cb_ok c10_of c10_pending 2 (of_device 110))
        = Some (- EBUSY)
   \<and> map_option fst (locked_dsa_register_switch cb_ok c10_of c10_pending 3 (of_device 120)) = Some 0
   \<and> lh_next (dsa_switch_trees c10_other_tree) = NODE 1
   \<and> lh_next (list (trees c10_other_tree 1)) = HEAD
   \<and> map_option fst (locked_dsa_register_switch cb_ok c10_of c10_other_tree 2 (of_device 110)) = Some 0
   \<and> allocated c10_split 0 \<and> tree (trees c10_split 0) = 0 \<and> ds (trees c10_split 0) 0 = Some 1
   \<and> allocated c10_split 2 \<and> tree (trees c10_split 2) = 0 \<and> ds (trees c10_split 2) 0 = Some 2
   \<and> dst (switches c10_split 1) = Some 0
   \<and> dst (switches c10_split 2) = Some 2"
  by (simp add: c10_eval)

lemma trees_switch_store [simp]: "trees (switch_store d f s) = trees s"
  by (simp add: switch_store_def)

lemma trees_dsa_parse_ports_dn_loop: "trees (snd (dsa_parse_ports_dn_loop dt s d ns)) = trees s"
  by (induction ns arbitrary: s) (auto simp: Let_def split: sum.splits)

lemma trees_dsa_parse_ports_loop:
  "dsa_parse_ports_loop dt c s d v is = Some (v', s') \<Longrightarrow> trees s' = trees s"
  by (induction "is" arbitrary: s v) (auto simp: Let_def split: option.splits if_splits)

lemma trees_register_parse:
  assumes "register_parse dt s d dev = Some (err, tr, idx, s1)"
  shows "trees s1 = trees s"
proof (cases "of_node dev")
  case (Some np)
  obtain e a b where m: "dsa_parse_member_dn dt np = (e, a, b)"
    by (cases "dsa_parse_member_dn dt np")
  show ?thesis
  proof (cases "dsa_get_ports dt np")
    case (Inl x)
    with assms Some m show ?thesis
      by (auto simp: register_parse_def split: if_splits)
  next
    case (Inr pn)
    with assms Some m show ?thesis
      using trees_dsa_parse_ports_dn_loop[of dt s d "map snd (children dt pn)"]
      by (auto simp: register_parse_def dsa_parse_ports_dn_def split: if_splits prod.splits)
  qed
next
  case None
  with assms show ?thesis
    by (auto simp: register_parse_def dsa_parse_member_def dsa_parse_ports_def
          split: if_splits option.splits prod.splits dest: trees_dsa_parse_ports_loop)
qed

lemma dsa_get_dst_found:
  "dsa_get_dst s tr = Some (Some t, s2) \<Longrightarrow> s2 = kref_get t s"
  by (auto simp: dsa_get_dst_def split: option.splits)

lemma trees_fold_switch_store [simp]:
  "trees (fold (\<lambda>i. switch_store d (f i)) is s) = trees s"
  by (induction "is" arbitrary: s) auto

lemma trees_register_claim:
  "trees (register_claim d dev t idx s) =
     (trees s)(t := (trees s t)\<lparr>refcount := refcount (trees s t) + 1, ds := (ds (trees s t))(idx := Some d)\<rparr>)"
  by (simp add: register_claim_def dsa_dst_add_ds_def kref_get_def tree_store_def Let_def)

text \<open>
  C9. When the head of registration succeeds, the lookup finds the tree, the slot is free,
  resolution returns Complete and the tree is already applied, register returns
  \<open>-EINVAL\<close> and undoes nothing: the store is the one resolution has left, the switch
  is in its slot, and the reference count of the tree is two above its value before the
  call (the reference of the lookup and the reference of the member).
\<close>

theorem disjoint_trees_not_unwound:
  assumes "register_parse dt s d dev = Some (0, tr, idx, s1)"
      and "dsa_get_dst s1 tr = Some (Some t, s2)"
      and "ds (trees s t) idx = None"
      and "fst (dsa_dst_complete dt (register_claim d dev t idx s2) t) = 0"
      and "applied (trees s t)"
  shows "locked_dsa_register_switch cb dt s d dev
           = Some (- EINVAL, snd (dsa_dst_complete dt (register_claim d dev t idx s2) t))
       \<and> ds (trees (snd (dsa_dst_complete dt (register_claim d dev t idx s2) t)) t) idx = Some d
       \<and> refcount (trees (snd (dsa_dst_complete dt (register_claim d dev t idx s2) t)) t)
           = refcount (trees s t) + 2"
proof -
  let ?s3 = "register_claim d dev t idx s2"
  obtain s4 where c: "dsa_dst_complete dt ?s3 t = (0, s4)"
    using assms(4) by (cases "dsa_dst_complete dt ?s3 t") simp
  have t1: "trees s1 = trees s"
    by (rule trees_register_parse[OF assms(1)])
  have s2: "s2 = kref_get t s1"
    by (rule dsa_get_dst_found[OF assms(2)])
  have t2: "trees s2 t = (trees s t)\<lparr>refcount := refcount (trees s t) + 1\<rparr>"
    by (simp add: s2 kref_get_def tree_store_def t1)
  have "same_topology ?s3 (snd (dsa_dst_complete dt ?s3 t))"
    by (simp add: dsa_dst_complete_def dsa_dst_complete_loop_topology)
  then have t4: "trees s4 = trees ?s3"
    using c by (simp add: same_topology_def)
  have free: "ds (trees s2 t) idx = None"
    by (simp add: t2 assms(3))
  have app: "applied (trees s4 t)"
    by (simp add: t4 trees_register_claim t2 assms(5))
  have "register_member cb dt s2 d dev t idx = Some (- EINVAL, s4)"
    using free app c by (simp add: register_member_def)
  then have r: "locked_dsa_register_switch cb dt s d dev = Some (- EINVAL, s4)"
    using assms(1,2) by (simp add: locked_dsa_register_switch_def)
  have slot: "ds (trees s4 t) idx = Some d"
    by (simp add: t4 trees_register_claim)
  have cnt: "refcount (trees s4 t) = refcount (trees s t) + 2"
    by (simp add: t4 trees_register_claim t2)
  show ?thesis using r slot cnt c by simp
qed

lemma dsa_get_dst_fstI:
  "map_option fst (dsa_get_dst s tr) = Some (Some t) \<Longrightarrow> dsa_get_dst s tr = Some (Some t, kref_get t s)"
  by (auto simp: dsa_get_dst_def split: option.splits)

lemma register_parse_fstI:
  "map_option (\<lambda>(e, tr, i, s). (e, tr, i)) (register_parse dt s d dev) = Some (e, tr, i) \<Longrightarrow>
   register_parse dt s d dev = Some (e, tr, i, snd (snd (snd (the (register_parse dt s d dev)))))"
  by (cases "register_parse dt s d dev") auto

theorem disjoint_trees_not_unwound_witness:
  "applied (trees c9_applied 0)
   \<and> ds (trees c9_applied 0) 0 = None
   \<and> map_option fst (locked_dsa_register_switch cb_ok chain_of c9_applied 1 (of_device 100)) = Some (- EINVAL)
   \<and> ds (trees (state_of (locked_dsa_register_switch cb_ok chain_of c9_applied 1 (of_device 100)) c9_applied) 0) 0 = Some 1
   \<and> refcount (trees (state_of (locked_dsa_register_switch cb_ok chain_of c9_applied 1 (of_device 100)) c9_applied) 0)
        = refcount (trees c9_applied 0) + 2"
proof -
  define S1 where "S1 = snd (snd (snd (the (register_parse chain_of c9_applied 1 (of_device 100)))))"
  have "map_option (\<lambda>(e, tr, i, s). (e, tr, i)) (register_parse chain_of c9_applied 1 (of_device 100)) = Some (0, 1, 0)"
    by (simp add: c9_applied_def chain_of_def chain_boot_def reg_eval replicate_numeral)
  then have h1: "register_parse chain_of c9_applied 1 (of_device 100) = Some (0, 1, 0, S1)"
    unfolding S1_def by (rule register_parse_fstI)
  have "map_option fst (dsa_get_dst S1 1) = Some (Some 0)"
    by (simp add: S1_def c9_applied_def chain_of_def chain_boot_def reg_eval replicate_numeral)
  then have h2: "dsa_get_dst S1 1 = Some (Some 0, kref_get 0 S1)"
    by (rule dsa_get_dst_fstI)
  have h35: "ds (trees c9_applied 0) 0 = None \<and> applied (trees c9_applied 0)"
    by (simp add: c9_applied_def chain_of_def chain_boot_def reg_eval replicate_numeral)
  have h4: "fst (dsa_dst_complete chain_of (register_claim 1 (of_device 100) 0 0 (kref_get 0 S1)) 0) = 0"
    by (simp add: S1_def c9_applied_def chain_of_def chain_boot_def reg_eval replicate_numeral)
  show ?thesis
    using h35 disjoint_trees_not_unwound [OF h1 h2 _ h4, of cb_ok]
    by (simp add: state_of_def)
qed

text \<open>
  C2 fails on the code. Before the call the tree holds switch 1 and has the reference
  count 1. The registration of switch 2 completes the tree, negotiation finds the master
  device of the CPU port not live, and register returns \<open>-EPROBE_DEFER\<close>: slot 1 is
  vacated, but the reference count is 2. The branch calls \<open>dsa_dst_del_ds\<close> and
  returns; the reference that \<open>dsa_get_dst\<close> took is not released, as the label
  \<open>out_del_dst\<close> would have done.
\<close>

theorem deferred_register_keeps_reference:
  "allocated c2_pending 0
   \<and> ds (trees c2_pending 0) 0 = Some 1
   \<and> ds (trees c2_pending 0) 1 = None
   \<and> refcount (trees c2_pending 0) = 1
   \<and> map_option fst (locked_dsa_register_switch cb_defer chain_of c2_pending 2 (of_device 110))
        = Some (- EPROBE_DEFER)
   \<and> ds (trees c2_deferred 0) 1 = None
   \<and> refcount (trees c2_deferred 0) = 2"
  by (simp add: c2_deferred_def c2_pending_def cb_defer_def chain_of_def chain_boot_def reg_eval
        replicate_numeral)

subsection \<open>Activator\<close>

lemma descr_length: "descr sw' = descr sw \<Longrightarrow> num_ports sw' = num_ports sw"
  by (metis descr_def length_map)

lemma descr_nth:
  assumes "descr sw' = descr sw" and "i < num_ports sw"
  shows "dn (ports sw' ! i) = dn (ports sw ! i) \<and> name (ports sw' ! i) = name (ports sw ! i)"
proof -
  have "descr sw' ! i = descr sw ! i" using assms(1) by simp
  moreover have "i < num_ports sw'" using assms descr_length by metis
  ultimately show ?thesis using assms(2) by (simp add: descr_def)
qed

lemma descr_netdev_update [simp]:
  "descr (x\<lparr>ports := (ports x)[i := (ports x ! i)\<lparr>netdev := v\<rparr>]\<rparr>) = descr x"
  by (cases "i < num_ports x") (simp_all add: descr_def map_update list_update_same_conv list_update_beyond)

lemma descr_cpu_port_mask [simp]: "descr (x\<lparr>cpu_port_mask := v\<rparr>) = descr x"
  by (simp add: descr_def)

lemma descr_enabled_port_mask [simp]: "descr (x\<lparr>enabled_port_mask := v\<rparr>) = descr x"
  by (simp add: descr_def)

lemma valid_cong: "dn p = dn q \<Longrightarrow> name p = name q \<Longrightarrow> dsa_port_is_valid p = dsa_port_is_valid q"
  by (simp add: dsa_port_is_valid_def)

lemma is_dsa_cong: "dn p = dn q \<Longrightarrow> name p = name q \<Longrightarrow> dsa_port_is_dsa dt p = dsa_port_is_dsa dt q"
  by (simp add: dsa_port_is_dsa_def)

lemma is_cpu_cong: "dn p = dn q \<Longrightarrow> name p = name q \<Longrightarrow> dsa_port_is_cpu dt p = dsa_port_is_cpu dt q"
  by (simp add: dsa_port_is_cpu_def)

lemma classify_cong: "dn p = dn q \<Longrightarrow> name p = name q \<Longrightarrow> classify dt p = classify dt q"
  by (simp add: classify_def valid_cong[of p q] is_dsa_cong[of p q] is_cpu_cong[of p q])

lemma descr_dsa_dsa_port_apply:
  "descr (switches (snd (dsa_dsa_port_apply cb s port i d)) e) = descr (switches s e)"
  by (simp add: dsa_dsa_port_apply_def Let_def)

lemma descr_dsa_cpu_port_apply:
  "descr (switches (snd (dsa_cpu_port_apply cb s port i d)) e) = descr (switches s e)"
  by (simp add: dsa_cpu_port_apply_def Let_def switch_store_def)

lemma descr_dsa_user_port_apply:
  "descr (switches (snd (dsa_user_port_apply cb dt s port i d)) e) = descr (switches s e)"
  by (simp add: dsa_user_port_apply_def dsa_slave_create_def Let_def switch_store_def
        split: sum.splits option.splits)

lemma fst_dsa_dsa_port_apply: "fst (dsa_dsa_port_apply cb s port i d) = dsa_cpu_dsa_setup cb d i"
  by (simp add: dsa_dsa_port_apply_def Let_def)

lemma fst_dsa_cpu_port_apply: "fst (dsa_cpu_port_apply cb s port i d) = dsa_cpu_dsa_setup cb d i"
  by (simp add: dsa_cpu_port_apply_def Let_def)

lemma is_uplink_iff:
  "is_uplink dt p \<longleftrightarrow> dsa_port_is_valid p \<and> (dsa_port_is_dsa dt p \<or> dsa_port_is_cpu dt p)"
  by (auto simp: is_uplink_def classify_def)

lemma is_uplink_descr:
  "descr sw' = descr sw \<Longrightarrow> i < num_ports sw \<Longrightarrow> is_uplink dt (ports sw' ! i) = is_uplink dt (ports sw ! i)"
  using descr_nth[of sw' sw i] classify_cong[of "ports sw' ! i" "ports sw ! i" dt]
  by (simp add: is_uplink_def)

lemma dsa_ds_apply_loop_verdict:
  assumes "\<forall>i\<in>set is. i < num_ports (switches s d)"
  shows "fst (dsa_ds_apply_loop cb dt s d is) =
     (case filter (\<lambda>i. is_uplink dt (ports (switches s d) ! i) \<and> dsa_cpu_dsa_setup cb d i \<noteq> 0) is of
        [] \<Rightarrow> 0 | i # _ \<Rightarrow> dsa_cpu_dsa_setup cb d i)"
  using assms
proof (induction "is" arbitrary: s)
  case Nil
  then show ?case by simp
next
  case (Cons i rest)
  let ?port = "ports (switches s d) ! i"
  let ?P = "\<lambda>s j. is_uplink dt (ports (switches s d) ! j) \<and> dsa_cpu_dsa_setup cb d j \<noteq> 0"
  have step: "fst (dsa_ds_apply_loop cb dt s1 d rest) =
      (case filter (?P s) rest of [] \<Rightarrow> 0 | j # _ \<Rightarrow> dsa_cpu_dsa_setup cb d j)"
    if "descr (switches s1 d) = descr (switches s d)" for s1
  proof -
    have n: "num_ports (switches s1 d) = num_ports (switches s d)"
      using that by (rule descr_length)
    have "?P s1 j = ?P s j" if "j \<in> set rest" for j
      using is_uplink_descr[OF \<open>descr (switches s1 d) = descr (switches s d)\<close>, of j dt] Cons.prems that
      by simp
    then have "filter (?P s1) rest = filter (?P s) rest"
      by (intro filter_cong) simp_all
    then show ?thesis
      using Cons.IH[of s1] Cons.prems n by simp
  qed
  show ?case
  proof (cases "dsa_port_is_valid ?port")
    case False
    then show ?thesis using step[of s] by (simp add: is_uplink_iff)
  next
    case valid: True
    show ?thesis
    proof (cases "dsa_port_is_dsa dt ?port")
      case True
      obtain err s1 where a: "dsa_dsa_port_apply cb s ?port i d = (err, s1)"
        by (cases "dsa_dsa_port_apply cb s ?port i d")
      have e: "err = dsa_cpu_dsa_setup cb d i"
        using fst_dsa_dsa_port_apply[of cb s ?port i d] a by simp
      have "descr (switches s1 d) = descr (switches s d)"
        using descr_dsa_dsa_port_apply[of cb s ?port i d d] a by simp
      then show ?thesis
        using valid True a e step[of s1] by (simp add: is_uplink_iff)
    next
      case nodsa: False
      show ?thesis
      proof (cases "dsa_port_is_cpu dt ?port")
        case True
        obtain err s1 where a: "dsa_cpu_port_apply cb s ?port i d = (err, s1)"
          by (cases "dsa_cpu_port_apply cb s ?port i d")
        have e: "err = dsa_cpu_dsa_setup cb d i"
          using fst_dsa_cpu_port_apply[of cb s ?port i d] a by simp
        have "descr (switches s1 d) = descr (switches s d)"
          using descr_dsa_cpu_port_apply[of cb s ?port i d d] a by simp
        then show ?thesis
          using valid nodsa True a e step[of s1] by (simp add: is_uplink_iff)
      next
        case False
        obtain err s1 where a: "dsa_user_port_apply cb dt s ?port i d = (err, s1)"
          by (cases "dsa_user_port_apply cb dt s ?port i d")
        have "descr (switches s1 d) = descr (switches s d)"
          using descr_dsa_user_port_apply[of cb dt s ?port i d d] a by simp
        then show ?thesis
          using valid nodsa False a step[of s1] by (simp add: is_uplink_iff)
      qed
    qed
  qed
qed

lemma switch_store_twice:
  "switch_store d f (switch_store d g s) = switch_store d (\<lambda>x. f (g x)) s"
  by (simp add: switch_store_def)

lemma switch_store_same: "f (switches s d) = switches s d \<Longrightarrow> switch_store d f s = s"
  by (simp add: switch_store_def)

lemma switch_store_cong:
  "f (switches s d) = g (switches s d) \<Longrightarrow> switch_store d f s = switch_store d g s"
  by (simp add: switch_store_def)

lemma apply_ports_on_stop:
  assumes "is = [] \<or> uplink_fails cb dt d sw (hd is)"
  shows "apply_ports_on cb dt d is sw = sw"
proof -
  have "ports_reached cb dt d sw is = []"
    using assms by (cases "is") (auto simp: ports_reached_def)
  then show ?thesis
    by (simp add: apply_ports_on_def map_nth)
qed

lemma materialized_descr:
  "dn (materialized cb dt d k p) = dn p \<and> name (materialized cb dt d k p) = name p"
  by (simp add: materialized_def split: sum.splits)

lemma materialized_other: "classify dt p \<noteq> User \<Longrightarrow> materialized cb dt d k p = p"
  by (simp add: materialized_def)

lemma apply_ports_on_skip:
  assumes "\<not> uplink_fails cb dt d sw i"
      and "classify dt (ports sw ! i) \<noteq> Cpu" and "classify dt (ports sw ! i) \<noteq> User"
  shows "apply_ports_on cb dt d (i # rest) sw = apply_ports_on cb dt d rest sw"
proof -
  have r: "ports_reached cb dt d sw (i # rest) = i # ports_reached cb dt d sw rest"
    using assms(1) by (simp add: ports_reached_def)
  have "map (\<lambda>k. if k \<in> set (i # ports_reached cb dt d sw rest)
                    then materialized cb dt d k (ports sw ! k) else ports sw ! k) [0 ..< num_ports sw]
      = map (\<lambda>k. if k \<in> set (ports_reached cb dt d sw rest)
                    then materialized cb dt d k (ports sw ! k) else ports sw ! k) [0 ..< num_ports sw]"
    using materialized_other[OF assms(3)] by (intro map_cong) auto
  then show ?thesis
    using assms(2) by (simp add: apply_ports_on_def r)
qed

lemma apply_ports_on_cpu:
  assumes "\<not> uplink_fails cb dt d sw i" and "classify dt (ports sw ! i) = Cpu"
  shows "apply_ports_on cb dt d (i # rest) sw
       = apply_ports_on cb dt d rest (sw\<lparr>cpu_port_mask := cpu_port_mask sw OR BIT i\<rparr>)"
proof -
  let ?sw1 = "sw\<lparr>cpu_port_mask := cpu_port_mask sw OR BIT i\<rparr>"
  have u: "uplink_fails cb dt d ?sw1 = uplink_fails cb dt d sw"
    by (rule ext) (simp add: uplink_fails_def)
  have r1: "ports_reached cb dt d ?sw1 rest = ports_reached cb dt d sw rest"
    by (simp add: ports_reached_def u)
  have r: "ports_reached cb dt d sw (i # rest) = i # ports_reached cb dt d sw rest"
    using assms(1) by (simp add: ports_reached_def)
  have "materialized cb dt d i (ports sw ! i) = ports sw ! i"
    using assms(2) by (simp add: materialized_other)
  then have "map (\<lambda>k. if k \<in> set (i # ports_reached cb dt d sw rest)
                    then materialized cb dt d k (ports sw ! k) else ports sw ! k) [0 ..< num_ports sw]
      = map (\<lambda>k. if k \<in> set (ports_reached cb dt d sw rest)
                    then materialized cb dt d k (ports sw ! k) else ports sw ! k) [0 ..< num_ports sw]"
    by (intro map_cong) auto
  then show ?thesis
    using assms(2) by (simp add: apply_ports_on_def r r1)
qed

lemma apply_ports_on_user:
  assumes "classify dt (ports sw ! i) = User" and "i < num_ports sw" and "i \<notin> set rest"
  shows "apply_ports_on cb dt d (i # rest) sw
       = apply_ports_on cb dt d rest
           (sw\<lparr>ports := (ports sw)[i := materialized cb dt d i (ports sw ! i)]\<rparr>)"
proof -
  let ?mp = "materialized cb dt d i (ports sw ! i)"
  let ?sw1 = "sw\<lparr>ports := (ports sw)[i := ?mp]\<rparr>"
  have cl: "classify dt (ports ?sw1 ! k) = classify dt (ports sw ! k)" for k
  proof (cases "k = i")
    case True
    then show ?thesis
      using assms(2) classify_cong[of ?mp "ports sw ! i" dt] materialized_descr[of cb dt d i "ports sw ! i"]
      by simp
  next
    case False
    then show ?thesis by simp
  qed
  have u: "uplink_fails cb dt d ?sw1 = uplink_fails cb dt d sw"
    by (rule ext) (simp only: uplink_fails_def is_uplink_def cl)
  have nf: "\<not> uplink_fails cb dt d sw i"
    using assms(1) by (simp add: uplink_fails_def is_uplink_def)
  have r1: "ports_reached cb dt d ?sw1 rest = ports_reached cb dt d sw rest"
    by (simp only: ports_reached_def u)
  have r: "ports_reached cb dt d sw (i # rest) = i # ports_reached cb dt d sw rest"
    using nf by (simp add: ports_reached_def)
  have ni: "i \<notin> set (ports_reached cb dt d sw rest)"
    using assms(3) set_takeWhileD[of i _ rest] by (auto simp: ports_reached_def)
  have m: "map (\<lambda>k. if k \<in> set (i # ports_reached cb dt d sw rest)
                    then materialized cb dt d k (ports sw ! k) else ports sw ! k) [0 ..< num_ports sw]
      = map (\<lambda>k. if k \<in> set (ports_reached cb dt d sw rest)
                    then materialized cb dt d k (ports ?sw1 ! k) else ports ?sw1 ! k) [0 ..< num_ports ?sw1]"
    using ni assms(2) by (intro map_cong) (auto simp: nth_list_update)
  have f: "filter (\<lambda>k. classify dt (ports sw ! k) = Cpu) (i # ports_reached cb dt d sw rest)
         = filter (\<lambda>k. classify dt (ports ?sw1 ! k) = Cpu) (ports_reached cb dt d sw rest)"
    using assms(1) by (simp only: cl) simp
  show ?thesis
    unfolding apply_ports_on_def r r1 f m by simp
qed


lemma dsa_user_port_apply_state:
  assumes "classify dt (ports (switches s d) ! i) = User"
  shows "snd (dsa_user_port_apply cb dt s (ports (switches s d) ! i) i d) =
     switch_store d (\<lambda>x. x\<lparr>ports := (ports x)[i := materialized cb dt d i (ports x ! i)]\<rparr>) s"
proof -
  let ?p = "ports (switches s d) ! i"
  have l: "(case (case dn ?p of None \<Rightarrow> name ?p | Some n \<Rightarrow> of_get_property dt n ''label'') of
              None \<Rightarrow> ''eth%d'' | Some l \<Rightarrow> l) = port_label dt ?p"
    by (simp add: port_label_def split: option.splits)
  show ?thesis
  proof (cases "slave_create cb d i (port_label dt ?p)")
    case (Inl err)
    show ?thesis
    proof (cases "err = 0")
      case True
      have "switch_store d (\<lambda>x. x\<lparr>ports := (ports x)[i := materialized cb dt d i (ports x ! i)]\<rparr>) s = s"
        using assms Inl True by (intro switch_store_same) (simp add: materialized_def)
      then show ?thesis
        using Inl True by (simp add: dsa_user_port_apply_def dsa_slave_create_def Let_def l)
    next
      case False
      have "switch_store d (\<lambda>x. x\<lparr>ports := (ports x)[i := materialized cb dt d i (ports x ! i)]\<rparr>) s
          = switch_store d (\<lambda>x. x\<lparr>ports := (ports x)[i := (ports x ! i)\<lparr>netdev := None\<rparr>]\<rparr>) s"
        using assms Inl False by (intro switch_store_cong) (simp add: materialized_def)
      then show ?thesis
        using Inl False by (simp add: dsa_user_port_apply_def dsa_slave_create_def Let_def l)
    qed
  next
    case (Inr dev)
    have "switch_store d (\<lambda>x. x\<lparr>ports := (ports x)[i := materialized cb dt d i (ports x ! i)]\<rparr>) s
        = switch_store d (\<lambda>x. x\<lparr>ports := (ports x)[i := (ports x ! i)\<lparr>netdev := Some dev\<rparr>]\<rparr>) s"
      using assms Inr by (intro switch_store_cong) (simp add: materialized_def)
    then show ?thesis
      using Inr by (simp add: dsa_user_port_apply_def dsa_slave_create_def Let_def l)
  qed
qed

lemma classify_cases:
  "classify dt p = Invalid \<longleftrightarrow> \<not> dsa_port_is_valid p"
  "classify dt p = Cpu \<longleftrightarrow> dsa_port_is_valid p \<and> \<not> dsa_port_is_dsa dt p \<and> dsa_port_is_cpu dt p"
  "classify dt p = User \<longleftrightarrow> dsa_port_is_valid p \<and> \<not> dsa_port_is_dsa dt p \<and> \<not> dsa_port_is_cpu dt p"
  by (simp_all add: classify_def)

lemma dsa_ds_apply_loop_state:
  assumes "distinct is" and "\<forall>i\<in>set is. i < num_ports (switches s d)"
  shows "snd (dsa_ds_apply_loop cb dt s d is) = switch_store d (apply_ports_on cb dt d is) s"
  using assms
proof (induction "is" arbitrary: s)
  case Nil
  show ?case
    by (simp add: switch_store_same apply_ports_on_stop)
next
  case (Cons i rest)
  let ?sw = "switches s d"
  let ?port = "ports ?sw ! i"
  have dr: "distinct rest" and ni: "i \<notin> set rest" and li: "i < num_ports ?sw"
    using Cons.prems by simp_all
  have ih: "snd (dsa_ds_apply_loop cb dt s1 d rest) = switch_store d (apply_ports_on cb dt d rest) s1"
    if "num_ports (switches s1 d) = num_ports ?sw" for s1
    using Cons.IH[OF dr, of s1] Cons.prems(2) that by simp
  have stop: "switch_store d (apply_ports_on cb dt d (i # rest)) s = s"
    if "uplink_fails cb dt d ?sw i"
    using that by (intro switch_store_same apply_ports_on_stop) simp
  show ?case
  proof (cases "classify dt ?port")
    case Invalid
    then have nv: "\<not> dsa_port_is_valid ?port"
      by (simp add: classify_cases)
    have "apply_ports_on cb dt d (i # rest) ?sw = apply_ports_on cb dt d rest ?sw"
      using Invalid by (intro apply_ports_on_skip) (simp_all add: uplink_fails_def is_uplink_def)
    then have "switch_store d (apply_ports_on cb dt d (i # rest)) s = switch_store d (apply_ports_on cb dt d rest) s"
      by (rule switch_store_cong)
    then show ?thesis
      using nv ih[of s] by simp
  next
    case DsaLink
    then have v: "dsa_port_is_valid ?port" "dsa_port_is_dsa dt ?port"
      by (simp_all add: classify_DsaLink)
    show ?thesis
    proof (cases "dsa_cpu_dsa_setup cb d i = 0")
      case True
      have "apply_ports_on cb dt d (i # rest) ?sw = apply_ports_on cb dt d rest ?sw"
        using DsaLink True by (intro apply_ports_on_skip) (simp_all add: uplink_fails_def)
      then have "switch_store d (apply_ports_on cb dt d (i # rest)) s = switch_store d (apply_ports_on cb dt d rest) s"
        by (rule switch_store_cong)
      then show ?thesis
        using v True ih[of s] by (simp add: dsa_dsa_port_apply_def)
    next
      case False
      then have "uplink_fails cb dt d ?sw i"
        using DsaLink by (simp add: uplink_fails_def is_uplink_def)
      then show ?thesis
        using v False stop by (simp add: dsa_dsa_port_apply_def)
    qed
  next
    case Cpu
    then have v: "dsa_port_is_valid ?port" "\<not> dsa_port_is_dsa dt ?port" "dsa_port_is_cpu dt ?port"
      by (simp_all add: classify_cases)
    show ?thesis
    proof (cases "dsa_cpu_dsa_setup cb d i = 0")
      case True
      let ?s1 = "switch_store d (\<lambda>x. x\<lparr>cpu_port_mask := cpu_port_mask x OR BIT i\<rparr>) s"
      have "apply_ports_on cb dt d (i # rest) ?sw
              = apply_ports_on cb dt d rest (?sw\<lparr>cpu_port_mask := cpu_port_mask ?sw OR BIT i\<rparr>)"
        using Cpu True by (intro apply_ports_on_cpu) (simp_all add: uplink_fails_def)
      then have "switch_store d (apply_ports_on cb dt d (i # rest)) s
               = switch_store d (apply_ports_on cb dt d rest) ?s1"
        unfolding switch_store_twice by (intro switch_store_cong) simp
      moreover have "num_ports (switches ?s1 d) = num_ports ?sw"
        by (simp add: switch_store_def)
      ultimately show ?thesis
        using v True ih[of ?s1] by (simp add: dsa_cpu_port_apply_def)
    next
      case False
      then have "uplink_fails cb dt d ?sw i"
        using Cpu by (simp add: uplink_fails_def is_uplink_def)
      then show ?thesis
        using v False stop by (simp add: dsa_cpu_port_apply_def)
    qed
  next
    case User
    then have v: "dsa_port_is_valid ?port" "\<not> dsa_port_is_dsa dt ?port" "\<not> dsa_port_is_cpu dt ?port"
      by (simp_all add: classify_cases)
    let ?s1 = "switch_store d (\<lambda>x. x\<lparr>ports := (ports x)[i := materialized cb dt d i (ports x ! i)]\<rparr>) s"
    obtain e where a: "dsa_user_port_apply cb dt s ?port i d = (e, ?s1)"
      using dsa_user_port_apply_state[OF User, of cb] by (cases "dsa_user_port_apply cb dt s ?port i d") simp
    have "apply_ports_on cb dt d (i # rest) ?sw
            = apply_ports_on cb dt d rest (?sw\<lparr>ports := (ports ?sw)[i := materialized cb dt d i (ports ?sw ! i)]\<rparr>)"
      using User li ni by (rule apply_ports_on_user)
    then have "switch_store d (apply_ports_on cb dt d (i # rest)) s
             = switch_store d (apply_ports_on cb dt d rest) ?s1"
      unfolding switch_store_twice by (intro switch_store_cong) simp
    moreover have "num_ports (switches ?s1 d) = num_ports ?sw"
      by (simp add: switch_store_def)
    ultimately show ?thesis
      using v a ih[of ?s1] by simp
  qed
qed


text \<open>
  C8. When the steps before the port loop pass, \<open>dsa_ds_apply\<close> returns 0 unless the
  uplink setup fails on a DsaLink or Cpu port, whatever \<open>dsa_slave_create\<close> returns
  for the user ports; then it returns the error of the first such port, and the ports
  from that one on are left as they were. Every user port before it is materialized,
  also after an earlier user port has failed: a user port whose interface cannot be
  created is left without an interface and the loop goes on. Every Cpu port before it has
  its bit set in the CPU port mask. Nothing else of the store changes but what the steps
  before the loop have written.
\<close>

theorem apply_fault_tolerance:
  assumes "prologue_passes cb s t d"
  shows "dsa_ds_apply cb dt s t d =
     Some (case uplink_failures cb dt (switches s d) d of
             [] \<Rightarrow> 0 | i # _ \<Rightarrow> dsa_cpu_dsa_setup cb d i,
           switch_store d (\<lambda>x. apply_ports cb dt d (after_prologue cb d x)) s)"
proof -
  let ?s2 = "switch_store d (after_prologue cb d) s"
  let ?n = "num_ports (switches ?s2 d)"
  have p: "ports (switches ?s2 d) = ports (switches s d)"
    by (simp add: switch_store_def after_prologue_def)
  have s1: "switch_store d (\<lambda>x. x\<lparr>phys_mii_mask := enabled_port_mask x\<rparr>) s = ?s2"
    if "\<not> (slave_mii_bus (switches s d) = None \<and> ops_phy_read cb d)"
    using that by (intro switch_store_cong) (auto simp: after_prologue_def)
  have s2: "switch_store d (\<lambda>x. x\<lparr>slave_mii_bus := Some bus\<rparr>)
              (switch_store d (\<lambda>x. x\<lparr>phys_mii_mask := enabled_port_mask x\<rparr>) s) = ?s2"
    if "slave_mii_bus (switches s d) = None" "ops_phy_read cb d" "devm_mdiobus_alloc cb d = Some bus" for bus
    unfolding switch_store_twice using that by (intro switch_store_cong) (simp add: after_prologue_def)
  have run: "dsa_ds_apply cb dt s t d = Some (dsa_ds_apply_loop cb dt ?s2 d [0 ..< ?n])"
  proof (cases "slave_mii_bus (switches s d) = None \<and> ops_phy_read cb d")
    case True
    then obtain bus where b: "devm_mdiobus_alloc cb d = Some bus" "0 \<le> mdiobus_register cb bus"
      using assms by (auto simp: prologue_passes_def split: option.splits)
    have m: "slave_mii_bus (switches (switch_store d (\<lambda>x. x\<lparr>phys_mii_mask := enabled_port_mask x\<rparr>) s) d) = None"
      using True by (simp add: switch_store_def)
    show ?thesis
      using assms True b m s2[OF _ _ b(1)]
      by (auto simp: dsa_ds_apply_def prologue_passes_def Let_def split: option.splits)
  next
    case False
    have m: "slave_mii_bus (switches (switch_store d (\<lambda>x. x\<lparr>phys_mii_mask := enabled_port_mask x\<rparr>) s) d)
               = slave_mii_bus (switches s d)"
      by (simp add: switch_store_def)
    show ?thesis
      using assms False m s1[OF False]
      by (auto simp: dsa_ds_apply_def prologue_passes_def Let_def split: option.splits)
  qed
  have v: "fst (dsa_ds_apply_loop cb dt ?s2 d [0 ..< ?n]) =
      (case uplink_failures cb dt (switches s d) d of [] \<Rightarrow> 0 | i # _ \<Rightarrow> dsa_cpu_dsa_setup cb d i)"
    using dsa_ds_apply_loop_verdict[of "[0 ..< ?n]" ?s2 d cb dt]
    by (simp add: uplink_failures_def p)
  have "snd (dsa_ds_apply_loop cb dt ?s2 d [0 ..< ?n]) = switch_store d (apply_ports_on cb dt d [0 ..< ?n]) ?s2"
    by (rule dsa_ds_apply_loop_state) simp_all
  also have "\<dots> = switch_store d (\<lambda>x. apply_ports cb dt d (after_prologue cb d x)) s"
    unfolding switch_store_twice
    by (intro switch_store_cong) (simp add: apply_ports_def switch_store_def after_prologue_def)
  finally have st: "snd (dsa_ds_apply_loop cb dt ?s2 d [0 ..< ?n])
      = switch_store d (\<lambda>x. apply_ports cb dt d (after_prologue cb d x)) s" .
  show ?thesis
    unfolding run using v st by (metis prod.collapse)
qed

lemmas c8_eval = c8_state_def c8_user_fails_def c8_cpu_fails_def mk_of_tree_def mk_switch_def mk_port_def
  cb_ok_def dsa_boot_def prologue_passes_def uplink_failures_def is_uplink_def classify_def
  dsa_port_is_valid_def dsa_port_is_dsa_def dsa_port_is_cpu_def of_parse_phandle_def
  ENOMEM_def ENODEV_def apply_ports_def apply_ports_on_def ports_reached_def uplink_fails_def
  materialized_def port_label_def after_prologue_def of_get_property_def switch_store_def BIT_def
  state_of_def upt_conv_Cons

theorem apply_fault_tolerance_witness:
  "prologue_passes c8_user_fails c8_state 0 1
   \<and> map_option fst (dsa_ds_apply c8_user_fails (mk_of_tree [] []) c8_state 0 1) = Some 0
   \<and> map netdev (ports (switches (state_of (dsa_ds_apply c8_user_fails (mk_of_tree [] []) c8_state 0 1) c8_state) 1))
        = [None, None, Some 102]
   \<and> cpu_port_mask (switches (state_of (dsa_ds_apply c8_user_fails (mk_of_tree [] []) c8_state 0 1) c8_state) 1) = 2
   \<and> prologue_passes c8_cpu_fails c8_state 0 1
   \<and> map_option fst (dsa_ds_apply c8_cpu_fails (mk_of_tree [] []) c8_state 0 1) = Some (- ENODEV)
   \<and> map netdev (ports (switches (state_of (dsa_ds_apply c8_cpu_fails (mk_of_tree [] []) c8_state 0 1) c8_state) 1))
        = [Some 100, None, None]
   \<and> cpu_port_mask (switches (state_of (dsa_ds_apply c8_cpu_fails (mk_of_tree [] []) c8_state 0 1) c8_state) 1) = 0"
proof -
  have p1: "prologue_passes c8_user_fails c8_state 0 1" and p2: "prologue_passes c8_cpu_fails c8_state 0 1"
    by (simp_all add: c8_eval)
  show ?thesis
    using p1 p2
    by (simp only: apply_fault_tolerance [OF p1] apply_fault_tolerance [OF p2]) (simp add: c8_eval)
qed

subsection \<open>Protocol negotiator\<close>

lemma elect_all_append: "elect_all cb (xs @ ys) e = elect_all cb ys (elect_all cb xs e)"
  by (induction xs arbitrary: e) (auto split: prod.splits)

lemma elect_all_elected:
  "elect_all cb ps (Some c, cp, tg) =
     (Some c, cp, if ps = [] then tg else Some (dsa_resolve_tag_protocol cb (get_tag_protocol cb (fst (last ps)))))"
  by (induction ps arbitrary: tg) auto

lemma elect_all_fresh:
  "ps \<noteq> [] \<Longrightarrow> elect_all cb ps (None, cp, tg) =
     (Some (fst (hd ps)), snd (hd ps),
      Some (dsa_resolve_tag_protocol cb (get_tag_protocol cb (fst (last ps)))))"
  by (cases ps) (auto simp: elect_all_elected)

lemma parse_frame_refl [simp]: "parse_frame t s s"
  by (simp add: parse_frame_def)

lemma parse_frame_trans: "parse_frame t s s1 \<Longrightarrow> parse_frame t s1 s2 \<Longrightarrow> parse_frame t s s2"
  by (simp add: parse_frame_def)

lemma cpu_master_frame:
  assumes "parse_frame t s s'"
  shows "cpu_master cb dt s' p = cpu_master cb dt s p"
proof -
  have "ports (switches s' (fst p)) = ports (switches s (fst p))"
    and "cd (switches s' (fst p)) = cd (switches s (fst p))"
    using assms by (simp_all add: parse_frame_def)
  then show ?thesis by (simp only: cpu_master_def)
qed

lemma reached_frame: "parse_frame t s s' \<Longrightarrow> reached cb dt s' L = reached cb dt s L"
  by (induction L) (simp_all add: cpu_master_frame)

lemma reached_append:
  "reached cb dt s (xs @ ys) =
     (if list_all (cpu_port_ok cb dt s) xs then xs @ reached cb dt s ys else reached cb dt s xs)"
  by (induction xs) auto

lemma reached_all: "list_all (cpu_port_ok cb dt s) L \<Longrightarrow> reached cb dt s L = L"
  by (induction L) auto

lemma elect_all_Cons: "elect_all cb (p # ps) e = elect_all cb ps (elect_all cb [p] e)"
  by (cases e) simp

lemma dsa_cpu_parse_result:
  assumes "dsa_cpu_parse cb dt s (ports (switches s d) ! i) i t d = Some (err, s')"
  shows "election (trees s' t) = elect_all cb (reached cb dt s [(d, i)]) (election (trees s t))"
    and "parse_frame t s s'"
    and "err = 0 \<longleftrightarrow> cpu_port_ok cb dt s (d, i)"
  using assms
  by (auto simp: dsa_cpu_parse_def election_def Let_def tree_store_def switch_store_def
        parse_frame_def EINVAL_def EPROBE_DEFER_def cpu_master_def tagger_error_def
        split: option.splits sum.splits if_splits)

lemma dsa_ds_parse_loop_result:
  assumes "dsa_ds_parse_loop cb dt s t d is = Some (err, s')"
  shows "election (trees s' t) =
           elect_all cb (reached cb dt s (map (Pair d) (filter (\<lambda>k. dsa_port_is_valid (ports (switches s d) ! k)
                                                  \<and> dsa_port_is_cpu dt (ports (switches s d) ! k)) is)))
             (election (trees s t))
       \<and> parse_frame t s s'
       \<and> (err = 0 \<longleftrightarrow> list_all (cpu_port_ok cb dt s)
                        (map (Pair d) (filter (\<lambda>k. dsa_port_is_valid (ports (switches s d) ! k)
                                                  \<and> dsa_port_is_cpu dt (ports (switches s d) ! k)) is)))"
  using assms
proof (induction "is" arbitrary: s)
  case Nil
  then show ?case by simp
next
  case (Cons i rest)
  let ?port = "ports (switches s d) ! i"
  let ?P = "\<lambda>s k. dsa_port_is_valid (ports (switches s d) ! k) \<and> dsa_port_is_cpu dt (ports (switches s d) ! k)"
  show ?case
  proof (cases "?P s i")
    case False
    then have "dsa_ds_parse_loop cb dt s t d rest = Some (err, s')"
      using Cons.prems by (auto simp: Let_def split: if_splits)
    then show ?thesis
      using Cons.IH[of s] False by auto
  next
    case True
    obtain e1 s1 where c: "dsa_cpu_parse cb dt s ?port i t d = Some (e1, s1)"
      using Cons.prems True by (auto simp: Let_def split: option.splits)
    have a: "election (trees s1 t) = elect_all cb (reached cb dt s [(d, i)]) (election (trees s t))"
      and f: "parse_frame t s s1"
      and k: "e1 = 0 \<longleftrightarrow> cpu_port_ok cb dt s (d, i)"
      using dsa_cpu_parse_result[OF c] by blast+
    have filt: "filter (?P s) (i # rest) = i # filter (?P s) rest"
      using True by simp
    show ?thesis
    proof (cases "e1 = 0")
      case False
      then have es: "err = e1" "s' = s1"
        using Cons.prems True c by (auto simp: Let_def)
      have nok: "\<not> cpu_port_ok cb dt s (d, i)"
        using False k by simp
      have re: "reached cb dt s ((d, i) # map (Pair d) (filter (?P s) rest)) = reached cb dt s [(d, i)]"
        using nok by auto
      have e: "election (trees s' t) = elect_all cb (reached cb dt s (map (Pair d) (filter (?P s) (i # rest)))) (election (trees s t))"
        unfolding filt list.map re es by (rule a)
      have n: "\<not> list_all (cpu_port_ok cb dt s) (map (Pair d) (filter (?P s) (i # rest)))"
        unfolding filt using nok by auto
      show ?thesis
        using e f n es False by blast
    next
      case ok: True
      then have r: "dsa_ds_parse_loop cb dt s1 t d rest = Some (err, s')"
        using Cons.prems True c by (auto simp: Let_def)
      have pe: "ports (switches s1 d) = ports (switches s d)"
        using f by (simp add: parse_frame_def)
      have ih: "election (trees s' t) = elect_all cb (reached cb dt s (map (Pair d) (filter (?P s) rest))) (election (trees s1 t))"
        and f2: "parse_frame t s1 s'"
        and k2: "err = 0 \<longleftrightarrow> list_all (cpu_port_ok cb dt s) (map (Pair d) (filter (?P s) rest))"
        using Cons.IH[OF r] by (simp_all add: pe reached_frame[OF f] cpu_master_frame[OF f])
      have okp: "cpu_port_ok cb dt s (d, i)"
        using ok k by simp
      have re: "reached cb dt s ((d, i) # map (Pair d) (filter (?P s) rest))
                  = (d, i) # reached cb dt s (map (Pair d) (filter (?P s) rest))"
        using okp by simp
      have r1: "reached cb dt s [(d, i)] = [(d, i)]"
        using okp by simp
      have "election (trees s' t) = elect_all cb (reached cb dt s (map (Pair d) (filter (?P s) (i # rest)))) (election (trees s t))"
        unfolding filt list.map re
        by (subst elect_all_Cons) (simp only: ih a r1)
      moreover have "parse_frame t s s'"
        by (rule parse_frame_trans[OF f f2])
      moreover have "err = 0 \<longleftrightarrow> list_all (cpu_port_ok cb dt s) (map (Pair d) (filter (?P s) (i # rest)))"
        unfolding filt using k2 okp by simp
      ultimately show ?thesis by blast
    qed
  qed
qed

lemma dsa_ds_parse_result:
  assumes "dsa_ds_parse cb dt s t d = Some (err, s')"
  shows "election (trees s' t) = elect_all cb (reached cb dt s (map (Pair d) (switch_cpu_ports dt (switches s d)))) (election (trees s t))
       \<and> parse_frame t s s'
       \<and> (err = 0 \<longleftrightarrow> list_all (cpu_port_ok cb dt s) (map (Pair d) (switch_cpu_ports dt (switches s d))))"
  using dsa_ds_parse_loop_result[of cb dt s t d "[0 ..< num_ports (switches s d)]" err s'] assms
  by (simp add: dsa_ds_parse_def switch_cpu_ports_def)


lemma dsa_dst_parse_loop_result:
  assumes "dsa_dst_parse_loop cb dt s t js = Some (err, s')"
  shows "election (trees s' t) =
           elect_all cb (reached cb dt s (concat (map (\<lambda>i. case ds (trees s t) i of
                                              None \<Rightarrow> []
                                            | Some d \<Rightarrow> map (Pair d) (switch_cpu_ports dt (switches s d))) js)))
             (election (trees s t))
       \<and> parse_frame t s s'
       \<and> (err = 0 \<longleftrightarrow> list_all (cpu_port_ok cb dt s)
              (concat (map (\<lambda>i. case ds (trees s t) i of
                                              None \<Rightarrow> []
                                            | Some d \<Rightarrow> map (Pair d) (switch_cpu_ports dt (switches s d))) js)))"
  using assms
proof (induction js arbitrary: s)
  case Nil
  then show ?case by simp
next
  case (Cons j rest)
  let ?L = "\<lambda>s i. case ds (trees s t) i of None \<Rightarrow> [] | Some d \<Rightarrow> map (Pair d) (switch_cpu_ports dt (switches s d))"
  show ?case
  proof (cases "ds (trees s t) j")
    case None
    then show ?thesis using Cons.IH[of s] Cons.prems by simp
  next
    case (Some d)
    obtain e1 s1 where c: "dsa_ds_parse cb dt s t d = Some (e1, s1)"
      using Cons.prems Some by (auto split: option.splits)
    have a: "election (trees s1 t) = elect_all cb (reached cb dt s (?L s j)) (election (trees s t))"
      and f: "parse_frame t s s1"
      and k: "e1 = 0 \<longleftrightarrow> list_all (cpu_port_ok cb dt s) (?L s j)"
      using dsa_ds_parse_result[OF c] Some by simp_all
    have cc: "concat (map (?L s) (j # rest)) = ?L s j @ concat (map (?L s) rest)"
      by simp
    show ?thesis
    proof (cases "e1 = 0")
      case False
      then have es: "err = e1" "s' = s1"
        using Cons.prems Some c by auto
      have nall: "\<not> list_all (cpu_port_ok cb dt s) (?L s j)"
        using k False by simp
      have re: "reached cb dt s (concat (map (?L s) (j # rest))) = reached cb dt s (?L s j)"
        unfolding cc by (simp only: reached_append nall if_False)
      have e: "election (trees s' t) = elect_all cb (reached cb dt s (concat (map (?L s) (j # rest)))) (election (trees s t))"
        unfolding re es by (rule a)
      have n: "\<not> list_all (cpu_port_ok cb dt s) (concat (map (?L s) (j # rest)))"
        unfolding cc using nall by simp
      show ?thesis
        using e f n es False by blast
    next
      case ok: True
      then have r: "dsa_dst_parse_loop cb dt s1 t rest = Some (err, s')"
        using Cons.prems Some c by auto
      have sl: "ds (trees s1 t) = ds (trees s t)"
        and sw: "ports (switches s1 p) = ports (switches s p)" for p
        using f by (simp_all add: parse_frame_def)
      have scp: "switch_cpu_ports dt (switches s1 p) = switch_cpu_ports dt (switches s p)" for p
        by (simp add: switch_cpu_ports_def sw)
      have L: "?L s1 = ?L s"
        by (rule ext) (simp only: sl scp)
      have ih: "election (trees s' t) = elect_all cb (reached cb dt s (concat (map (?L s) rest))) (election (trees s1 t))"
        and f2: "parse_frame t s1 s'"
        and k2: "err = 0 \<longleftrightarrow> list_all (cpu_port_ok cb dt s) (concat (map (?L s) rest))"
        using Cons.IH[OF r] by (simp_all only: L reached_frame[OF f] cpu_master_frame[OF f])
      have all: "list_all (cpu_port_ok cb dt s) (?L s j)"
        using k ok by simp
      have re: "reached cb dt s (concat (map (?L s) (j # rest))) = ?L s j @ reached cb dt s (concat (map (?L s) rest))"
        unfolding cc by (simp only: reached_append all if_True)
      have a': "election (trees s1 t) = elect_all cb (?L s j) (election (trees s t))"
        using a reached_all[OF all] by simp
      have "election (trees s' t) = elect_all cb (reached cb dt s (concat (map (?L s) (j # rest)))) (election (trees s t))"
        unfolding re elect_all_append by (simp only: ih a')
      moreover have "parse_frame t s s'"
        by (rule parse_frame_trans[OF f f2])
      moreover have "err = 0 \<longleftrightarrow> list_all (cpu_port_ok cb dt s) (concat (map (?L s) (j # rest)))"
        unfolding cc using k2 all by simp
      ultimately show ?thesis by blast
    qed
  qed
qed


lemma elect_all_closed:
  "elect_all cb R (cs, cp, tg) =
     (case cs of
        Some c \<Rightarrow> Some c
      | None \<Rightarrow> (case R of [] \<Rightarrow> None | p # _ \<Rightarrow> Some (fst p)),
      case cs of
        Some c \<Rightarrow> cp
      | None \<Rightarrow> (case R of [] \<Rightarrow> cp | p # _ \<Rightarrow> snd p),
      case R of
        [] \<Rightarrow> tg
      | p # ps \<Rightarrow> Some (dsa_resolve_tag_protocol cb (get_tag_protocol cb (fst (last (p # ps))))))"
proof (cases R)
  case Nil
  then show ?thesis by (cases cs) simp_all
next
  case (Cons p ps)
  show ?thesis
  proof (cases cs)
    case None
    then show ?thesis
      using elect_all_fresh[of R cb cp tg] Cons by simp
  next
    case (Some c)
    then show ?thesis
      using elect_all_elected[of cb R c cp tg] Cons by simp
  qed
qed

lemmas c7_eval = c7_parsed_def c7_state_def c7_of_def c7_both_of_def mk_of_tree_def mk_switch_def mk_port_def
  cb_ok_def state_of_def dsa_dst_parse_def dsa_ds_parse_def dsa_cpu_parse_def dsa_port_is_valid_def
  dsa_port_is_cpu_def dsa_port_is_dsa_def classify_def of_parse_phandle_def tree_store_def
  switch_store_def zero_tree_def
  DSA_MAX_SWITCHES_def DSA_RTABLE_NONE_def EINVAL_def EPROBE_DEFER_def Let_def upt_conv_Cons
  tree_cpu_ports_def switch_cpu_ports_def

lemmas c7_retry_eval = c7_stale_def c7_deferred_def c7_retry_of_def cb_one_master_def chain_boot_def
  reg_eval tree_cpu_ports_def switch_cpu_ports_def

lemma handlers_of_last_cpu_port:
  "map_option fst (dsa_dst_parse cb_ok c7_of c7_state 0) = Some 0
   \<and> cpu_switch (trees c7_state 0) = None
   \<and> cpu_switch (trees c7_parsed 0) = Some 1
   \<and> cpu_port (trees c7_parsed 0) = 1
   \<and> tag_ops (trees c7_parsed 0) = Some (dsa_resolve_tag_protocol cb_ok (get_tag_protocol cb_ok 2))
   \<and> dsa_resolve_tag_protocol cb_ok (get_tag_protocol cb_ok 2)
        \<noteq> dsa_resolve_tag_protocol cb_ok (get_tag_protocol cb_ok 1)"
  by (simp add: c7_eval)

lemma link_port_elected:
  "classify c7_both_of (ports (switches c7_state 1) ! 0) = DsaLink
   \<and> classify c7_both_of (ports (switches c7_state 1) ! 1) = Cpu
   \<and> map_option fst (dsa_dst_parse cb_ok c7_both_of c7_state 0) = Some 0
   \<and> cpu_switch (trees (state_of (dsa_dst_parse cb_ok c7_both_of c7_state 0) c7_state) 0) = Some 1
   \<and> cpu_port (trees (state_of (dsa_dst_parse cb_ok c7_both_of c7_state 0) c7_state) 0) = 0"
  by (simp add: c7_eval)

lemma stale_election_kept:
  "map_option fst (locked_dsa_register_switch cb_one_master c7_retry_of chain_boot 2 (of_device 110))
        = Some (- EPROBE_DEFER)
   \<and> cpu_switch (trees c7_deferred 0) = Some 2
   \<and> ds (trees c7_deferred 0) 1 = None
   \<and> map_option fst (locked_dsa_register_switch cb_one_master c7_retry_of c7_deferred 1 (of_device 100))
        = Some 0
   \<and> tree_cpu_ports c7_retry_of c7_stale 0 = [(1, 0)]
   \<and> ds (trees c7_stale 0) 1 = None
   \<and> cpu_switch (trees c7_stale 0) = Some 2"
  by (simp add: c7_retry_eval)

text \<open>
  C7, as the claim states it, fails in three ways. (1) With a CPU port on each of two
  switches, negotiation succeeds and elects port 1 of switch 1, the first CPU port, but
  the handler set it records is the one requested for switch 2, the owner of the last
  CPU port, which differs from the one of switch 1. (2) A port of switch 1 with a "link"
  and an "ethernet" reference is a DsaLink port for the classifier, and yet negotiation
  elects it, before port 1, the first port of class Cpu. (3) The registration of
  switch 2 is deferred at its second CPU port after its first one has been elected;
  switch 2 leaves the tree, the election stays. Switch 1 then registers with success:
  its CPU port is the only one of the tree, and the CPU switch of the tree is still
  switch 2, which is no member.
\<close>

theorem election_not_first_cpu_port:
  "map_option fst (dsa_dst_parse cb_ok c7_of c7_state 0) = Some 0
   \<and> cpu_switch (trees c7_state 0) = None
   \<and> cpu_switch (trees c7_parsed 0) = Some 1
   \<and> cpu_port (trees c7_parsed 0) = 1
   \<and> tag_ops (trees c7_parsed 0) = Some (dsa_resolve_tag_protocol cb_ok (get_tag_protocol cb_ok 2))
   \<and> dsa_resolve_tag_protocol cb_ok (get_tag_protocol cb_ok 2)
        \<noteq> dsa_resolve_tag_protocol cb_ok (get_tag_protocol cb_ok 1)
   \<and> classify c7_both_of (ports (switches c7_state 1) ! 0) = DsaLink
   \<and> classify c7_both_of (ports (switches c7_state 1) ! 1) = Cpu
   \<and> map_option fst (dsa_dst_parse cb_ok c7_both_of c7_state 0) = Some 0
   \<and> cpu_switch (trees (state_of (dsa_dst_parse cb_ok c7_both_of c7_state 0) c7_state) 0) = Some 1
   \<and> cpu_port (trees (state_of (dsa_dst_parse cb_ok c7_both_of c7_state 0) c7_state) 0) = 0
   \<and> map_option fst (locked_dsa_register_switch cb_one_master c7_retry_of chain_boot 2 (of_device 110))
        = Some (- EPROBE_DEFER)
   \<and> cpu_switch (trees c7_deferred 0) = Some 2
   \<and> ds (trees c7_deferred 0) 1 = None
   \<and> map_option fst (locked_dsa_register_switch cb_one_master c7_retry_of c7_deferred 1 (of_device 100))
        = Some 0
   \<and> tree_cpu_ports c7_retry_of c7_stale 0 = [(1, 0)]
   \<and> ds (trees c7_stale 0) 1 = None
   \<and> cpu_switch (trees c7_stale 0) = Some 2"
  using handlers_of_last_cpu_port link_port_elected stale_election_kept by blast

text \<open>
  C7 (amended). Whenever negotiation returns, with 0 or with an error: a tree that had a
  CPU switch before the run keeps that CPU switch and CPU port; a tree that had none
  gets the first CPU port in the order of the loops (lowest slot, then lowest port index)
  as its CPU switch and CPU port when the master device of that port is found, and none
  otherwise. The handler set recorded on the tree is the one requested from the driver
  of the switch that owns the last CPU port that the run has reached with a master
  device; without such a port it is the one recorded before. When negotiation returns 0,
  the run has reached every CPU port of the tree.
\<close>

theorem negotiation_election:
  assumes "dsa_dst_parse cb dt s t = Some (err, s')"
  shows "cpu_switch (trees s' t) =
           (case cpu_switch (trees s t) of
              Some c \<Rightarrow> Some c
            | None \<Rightarrow> (case reached cb dt s (tree_cpu_ports dt s t) of [] \<Rightarrow> None | p # _ \<Rightarrow> Some (fst p)))
       \<and> cpu_port (trees s' t) =
           (case cpu_switch (trees s t) of
              Some c \<Rightarrow> cpu_port (trees s t)
            | None \<Rightarrow> (case reached cb dt s (tree_cpu_ports dt s t) of
                         [] \<Rightarrow> cpu_port (trees s t) | p # _ \<Rightarrow> snd p))
       \<and> tag_ops (trees s' t) =
           (case reached cb dt s (tree_cpu_ports dt s t) of
              [] \<Rightarrow> tag_ops (trees s t)
            | p # ps \<Rightarrow> Some (dsa_resolve_tag_protocol cb (get_tag_protocol cb (fst (last (p # ps))))))
       \<and> (err = 0 \<longrightarrow> reached cb dt s (tree_cpu_ports dt s t) = tree_cpu_ports dt s t)"
proof -
  obtain e1 where l: "dsa_dst_parse_loop cb dt s t [0 ..< DSA_MAX_SWITCHES] = Some (e1, s')"
    and z: "err = 0 \<longrightarrow> e1 = 0"
    using assms by (auto simp: dsa_dst_parse_def split: option.splits if_splits)
  have e: "election (trees s' t) = elect_all cb (reached cb dt s (tree_cpu_ports dt s t)) (election (trees s t))"
    and k: "e1 = 0 \<longleftrightarrow> list_all (cpu_port_ok cb dt s) (tree_cpu_ports dt s t)"
    using dsa_dst_parse_loop_result[OF l] by (simp_all add: tree_cpu_ports_def)
  have r: "err = 0 \<longrightarrow> reached cb dt s (tree_cpu_ports dt s t) = tree_cpu_ports dt s t"
    using z k reached_all[of cb dt s "tree_cpu_ports dt s t"] by blast
  have "(cpu_switch (trees s' t), cpu_port (trees s' t), tag_ops (trees s' t))
          = elect_all cb (reached cb dt s (tree_cpu_ports dt s t))
              (cpu_switch (trees s t), cpu_port (trees s t), tag_ops (trees s t))"
    using e by (simp only: election_def)
  then show ?thesis
    using r by (simp only: elect_all_closed prod.inject)
qed

theorem negotiation_election_witness:
  "dsa_dst_parse cb_ok c7_of c7_state 0 = Some (0, c7_parsed)
   \<and> cpu_switch (trees c7_state 0) = None
   \<and> reached cb_ok c7_of c7_state (tree_cpu_ports c7_of c7_state 0) = [(1, 1), (2, 1)]
   \<and> tree_cpu_ports c7_of c7_state 0 = [(1, 1), (2, 1)]
   \<and> cpu_switch (trees c7_parsed 0) = Some 1
   \<and> cpu_port (trees c7_parsed 0) = 1
   \<and> tag_ops (trees c7_parsed 0) = Some (dsa_resolve_tag_protocol cb_ok (get_tag_protocol cb_ok 2))"
proof -
  have "map_option fst (dsa_dst_parse cb_ok c7_of c7_state 0) = Some 0"
    by (simp add: c7_eval)
  then have p: "dsa_dst_parse cb_ok c7_of c7_state 0 = Some (0, c7_parsed)"
    by (cases "dsa_dst_parse cb_ok c7_of c7_state 0") (auto simp: c7_parsed_def state_of_def)
  have n: "cpu_switch (trees c7_state 0) = None"
    by (simp add: c7_state_def zero_tree_def)
  have l: "tree_cpu_ports c7_of c7_state 0 = [(1, 1), (2, 1)]"
    by (simp add: c7_eval)
  have r: "reached cb_ok c7_of c7_state [(1, 1), (2, 1)] = [(1, 1), (2, 1)]"
    by (simp add: cpu_master_def tagger_error_def c7_eval)
  show ?thesis
    using p n l r negotiation_election [OF p] by simp
qed

end
